theory Spec2Isabelle
  imports Complex_Main "HOL-Library.AList"
begin

section \<open>Values of the JavaScript runtime\<close>

text \<open>
  The server is TypeScript run by Node. The fields typed \<open>number\<close> in \<open>MCPCommand\<close> are
  modelled as \<open>int\<close> (the spec and the claims speak of integer inputs); arithmetic on them
  is exact rational arithmetic. On the two expressions of this program that are rounded,
  \<open>(b / 100) * 254\<close> and \<open>1000000 / t\<close>, this agrees with IEEE doubles for every integer
  \<open>b\<close> of magnitude below \<open>10^13\<close> and every non-zero integer \<open>t\<close>: where the exact value
  has a fractional part of one half (\<open>b = 25\<close> and \<open>b = 75\<close> between 0 and 100) the double
  is exact, and every other exact value is further from a half than the rounding error.
  \<open>Math.round\<close> rounds to the nearest integer, halves towards plus infinity.
\<close>

definition js_round :: "rat \<Rightarrow> int" where
  "js_round x = \<lfloor>x + 1 / 2\<rfloor>"

type_synonym rgb = "int \<times> int \<times> int"

datatype jsval = JBool bool | JNum int | JStr string | JRgb rgb | JUndefined

text \<open>
  An object literal is an association list in insertion order. Assigning a property keeps
  the position of an existing key and appends a new one; reading a property that was never
  assigned gives \<open>undefined\<close>, here \<open>None\<close>.
\<close>

type_synonym js_object = "(string \<times> jsval) list"

definition set_prop :: "js_object \<Rightarrow> string \<Rightarrow> jsval \<Rightarrow> js_object" where
  "set_prop obj k v = AList.update k v obj"

definition get_prop :: "js_object \<Rightarrow> string \<Rightarrow> jsval option" where
  "get_prop obj k = map_of obj k"

text \<open>
  What a \<open>catch\<close> clause can receive: an object with a string \<open>message\<close> (every \<open>Error\<close>
  of the runtime and of the bridge library), \<open>null\<close> or \<open>undefined\<close>, or some other value
  whose \<open>message\<close> property is \<open>undefined\<close>.
\<close>

datatype js_thrown = JsError string | JsNullish | JsOther

text \<open>
  The \<open>TypeError\<close> of a property read from \<open>null\<close> or \<open>undefined\<close>. Its message is the
  wording of V8 without the quotation marks; below only its being non-empty matters.
\<close>

definition type_error :: "string \<Rightarrow> string \<Rightarrow> js_thrown" where
  "type_error base prop =
     JsError (''Cannot read properties of '' @ base @ '' (reading '' @ prop @ '')'')"

text \<open>\<open>error.message || dflt\<close>: reading \<open>message\<close> of \<open>null\<close> or \<open>undefined\<close> throws.\<close>

fun message_or :: "js_thrown \<Rightarrow> string \<Rightarrow> js_thrown + string" where
  "message_or (JsError m) dflt = Inr (if m = [] then dflt else m)"
| "message_or JsOther dflt = Inr dflt"
| "message_or JsNullish dflt = Inl (type_error ''null'' ''message'')"

text \<open>Truthiness of optional fields: \<open>undefined\<close>, the empty string and \<open>0\<close> are falsy.\<close>

definition truthy_str :: "string option \<Rightarrow> bool" where
  "truthy_str s = (case s of None \<Rightarrow> False | Some v \<Rightarrow> v \<noteq> [])"

definition truthy_num :: "int option \<Rightarrow> bool" where
  "truthy_num n = (case n of None \<Rightarrow> False | Some v \<Rightarrow> v \<noteq> 0)"

text \<open>\<open>x || d\<close> on an optional number.\<close>

definition or_default :: "int option \<Rightarrow> int \<Rightarrow> int" where
  "or_default n d = (case n of None \<Rightarrow> d | Some v \<Rightarrow> if v = 0 then d else v)"

section \<open>Data model of \<open>server.ts\<close>\<close>

record MCPCommand =
  type :: string
  lightId :: "string option"
  color :: "rgb option"
  times_f :: "int option"
  brightness :: "int option"
  effectType :: "string option"
  transitionTime :: "int option"
  alert :: "string option"
  temperature :: "int option"
  scene :: "string option"
  group_f :: "string option"
  duration :: "int option"
  speed :: "int option"

text \<open>
  What the bridge library returns is typed \<open>any\<close>. A light, group or scene is modelled by
  the properties the server reads; the reported state is kept as an opaque text, and the last
  component stands for every property the server never reads. These values are plain data:
  the library does not change an object after it has returned it.
\<close>

datatype bridge_light =
  BridgeLight (light_id: string) (light_name: string) (light_state: string) (light_rest: string)

datatype bridge_group =
  BridgeGroup (group_id: string) (group_name: string) (group_lights: "string list")
    (group_state: string) (group_rest: string)

datatype bridge_scene =
  BridgeScene (scene_id: string) (scene_name: string) (scene_lights: "string list")
    (scene_rest: string)

datatype light_view = LightView string string string

datatype group_view = GroupView string string "string list" string

datatype scene_view = SceneView string string "string list"

text \<open>\<open>MCPResponse\<close> is a union discriminated by its \<open>type\<close> property.\<close>

datatype MCPResponse =
    LightsList "light_view list"
  | GroupsList "group_view list"
  | ScenesList "scene_view list"
  | Success
  | Error string
  | Hello string "string list"

fun response_type :: "MCPResponse \<Rightarrow> string" where
  "response_type (LightsList ls) = ''lights_list''"
| "response_type (GroupsList gs) = ''groups_list''"
| "response_type (ScenesList ss) = ''scenes_list''"
| "response_type Success = ''success''"
| "response_type (Error e) = ''error''"
| "response_type (Hello v cs) = ''hello''"

text \<open>
  The bridge session (\<open>node-hue-api\<close>) is external. It is a record of operations over a
  world \<open>'w\<close> that the server cannot see; each operation returns normally or throws, and may
  change the world.
\<close>

record 'w Bridge =
  lights_getAll :: "'w \<Rightarrow> (js_thrown + bridge_light list) \<times> 'w"
  groups_getAll :: "'w \<Rightarrow> (js_thrown + bridge_group list) \<times> 'w"
  scenes_getAll :: "'w \<Rightarrow> (js_thrown + bridge_scene list) \<times> 'w"
  lights_setLightState :: "string \<Rightarrow> js_object \<Rightarrow> 'w \<Rightarrow> (js_thrown + unit) \<times> 'w"
  groups_setGroupState :: "string \<Rightarrow> js_object \<Rightarrow> 'w \<Rightarrow> (js_thrown + unit) \<times> 'w"
  scenes_activateScene :: "string \<Rightarrow> 'w \<Rightarrow> (js_thrown + unit) \<times> 'w"

text \<open>The module-level \<open>state\<close>: \<open>bridge\<close> is \<open>null\<close> until initialization.\<close>

record 'w HueState =
  bridge :: "'w Bridge option"
  lights :: "bridge_light list"

datatype bridge_call =
    LightsGetAll
  | GroupsGetAll
  | ScenesGetAll
  | SetLightState string js_object
  | SetGroupState string js_object
  | ActivateScene string

text \<open>
  Everything the server does to the outside, in order: calls that reached the bridge, timed
  waits, and what is done to a socket. No statement of the source ends or destroys a
  socket; \<open>SocketEnd\<close> is there so that this can be said.
\<close>

datatype event =
    BridgeCall bridge_call
  | Wait int
  | SocketWrite nat MCPResponse
  | SocketEnd nat

text \<open>
  A timer made by \<open>setInterval\<close> in the \<open>disco\<close> case, with the variables its callback
  closes over. \<open>clearInterval\<close> makes it inactive.
\<close>

record disco_job =
  job_lightId :: "string option"
  job_duration :: int
  job_speed :: int
  colorIndex :: nat
  startTime :: int
  active :: bool

record 'w sys =
  hue :: "'w HueState"
  world :: 'w
  clock :: int
  timers :: "disco_job list"
  trace :: "event list"

section \<open>Effects: state passing with exceptions\<close>

type_synonym ('w, 'a) act = "'w sys \<Rightarrow> (js_thrown + 'a) \<times> 'w sys"

definition ret :: "'a \<Rightarrow> ('w, 'a) act" where
  "ret x = (\<lambda>\<sigma>. (Inr x, \<sigma>))"

definition throw :: "js_thrown \<Rightarrow> ('w, 'a) act" where
  "throw e = (\<lambda>\<sigma>. (Inl e, \<sigma>))"

definition lift :: "js_thrown + 'a \<Rightarrow> ('w, 'a) act" where
  "lift r = (\<lambda>\<sigma>. (r, \<sigma>))"

definition bnd :: "('w, 'a) act \<Rightarrow> ('a \<Rightarrow> ('w, 'b) act) \<Rightarrow> ('w, 'b) act" where
  "bnd m f = (\<lambda>\<sigma>. case m \<sigma> of (Inl e, \<sigma>') \<Rightarrow> (Inl e, \<sigma>') | (Inr x, \<sigma>') \<Rightarrow> f x \<sigma>')"

definition try_catch :: "('w, 'a) act \<Rightarrow> (js_thrown \<Rightarrow> ('w, 'a) act) \<Rightarrow> ('w, 'a) act" where
  "try_catch m h = (\<lambda>\<sigma>. case m \<sigma> of (Inl e, \<sigma>') \<Rightarrow> h e \<sigma>' | (Inr x, \<sigma>') \<Rightarrow> (Inr x, \<sigma>'))"

definition emit :: "event \<Rightarrow> ('w, unit) act" where
  "emit ev = (\<lambda>\<sigma>. (Inr (), \<sigma>\<lparr>trace := trace \<sigma> @ [ev]\<rparr>))"

text \<open>\<open>await new Promise(resolve => setTimeout(resolve, ms))\<close>: at least \<open>ms\<close> pass.\<close>

definition wait :: "int \<Rightarrow> ('w, unit) act" where
  "wait ms = (\<lambda>\<sigma>. (Inr (), \<sigma>\<lparr>clock := clock \<sigma> + ms, trace := trace \<sigma> @ [Wait ms]\<rparr>))"

definition socket_write :: "nat \<Rightarrow> MCPResponse \<Rightarrow> ('w, unit) act" where
  "socket_write socket response = emit (SocketWrite socket response)"

text \<open>
  The expression \<open>state.bridge\<close> followed by a property read, where \<open>state\<close> is the
  module-level object: a \<open>TypeError\<close> while \<open>bridge\<close> is \<open>null\<close>.
\<close>

definition state_bridge :: "string \<Rightarrow> ('w, 'w Bridge) act" where
  "state_bridge prop = (\<lambda>\<sigma>. case bridge (hue \<sigma>) of
       None \<Rightarrow> (Inl (type_error ''null'' prop), \<sigma>)
     | Some B \<Rightarrow> (Inr B, \<sigma>))"

text \<open>A call that reaches the bridge: it is recorded, the world moves on, the result comes back.\<close>

definition invoke :: "bridge_call \<Rightarrow> ('w \<Rightarrow> (js_thrown + 'a) \<times> 'w) \<Rightarrow> ('w, 'a) act" where
  "invoke c op = (\<lambda>\<sigma>. case op (world \<sigma>) of
       (r, w') \<Rightarrow> (r, \<sigma>\<lparr>world := w', trace := trace \<sigma> @ [BridgeCall c]\<rparr>))"

text \<open>\<open>await state.bridge.lights.setLightState(id, st)\<close> and its siblings on the module state.\<close>

definition setLightState :: "string \<Rightarrow> js_object \<Rightarrow> ('w, unit) act" where
  "setLightState lid st =
     bnd (state_bridge ''lights'') (\<lambda>B. invoke (SetLightState lid st) (lights_setLightState B lid st))"

definition activateScene :: "string \<Rightarrow> ('w, unit) act" where
  "activateScene sc =
     bnd (state_bridge ''scenes'') (\<lambda>B. invoke (ActivateScene sc) (scenes_activateScene B sc))"

definition lights_getAll_call :: "('w, bridge_light list) act" where
  "lights_getAll_call = bnd (state_bridge ''lights'') (\<lambda>B. invoke LightsGetAll (lights_getAll B))"

definition groups_getAll_call :: "('w, bridge_group list) act" where
  "groups_getAll_call = bnd (state_bridge ''groups'') (\<lambda>B. invoke GroupsGetAll (groups_getAll B))"

definition scenes_getAll_call :: "('w, bridge_scene list) act" where
  "scenes_getAll_call = bnd (state_bridge ''scenes'') (\<lambda>B. invoke ScenesGetAll (scenes_getAll B))"

definition state_lights :: "('w, bridge_light list) act" where
  "state_lights = (\<lambda>\<sigma>. (Inr (lights (hue \<sigma>)), \<sigma>))"

section \<open>The command interpreter: \<open>handleCommand\<close>\<close>

definition light_view_of :: "bridge_light \<Rightarrow> light_view" where
  "light_view_of light = LightView (light_id light) (light_name light) (light_state light)"

definition group_view_of :: "bridge_group \<Rightarrow> group_view" where
  "group_view_of g = GroupView (group_id g) (group_name g) (group_lights g) (group_state g)"

definition scene_view_of :: "bridge_scene \<Rightarrow> scene_view" where
  "scene_view_of s = SceneView (scene_id s) (scene_name s) (scene_lights s)"

text \<open>
  The body of every \<open>catch (error: any)\<close> of \<open>handleCommand\<close>:
  \<open>return {type: 'error', error: error.message || dflt}\<close>.
\<close>

definition catch_as :: "string \<Rightarrow> js_thrown \<Rightarrow> ('w, MCPResponse) act" where
  "catch_as dflt error = bnd (lift (message_or error dflt)) (\<lambda>m. ret (Error m))"

text \<open>The literal \<open>{on: true, bri: 254, rgb: command.color}\<close> of \<open>set_color\<close> and \<open>flash\<close>.\<close>

definition on_bri_rgb :: "rgb \<Rightarrow> js_object" where
  "on_bri_rgb c = [(''on'', JBool True), (''bri'', JNum 254), (''rgb'', JRgb c)]"

definition handle_get_lights :: "('w, MCPResponse) act" where
  "handle_get_lights = bnd state_lights (\<lambda>ls. ret (LightsList (map light_view_of ls)))"

definition handle_get_groups :: "('w, MCPResponse) act" where
  "handle_get_groups =
     bnd groups_getAll_call (\<lambda>groups. ret (GroupsList (map group_view_of groups)))"

definition handle_get_scenes :: "('w, MCPResponse) act" where
  "handle_get_scenes =
     bnd scenes_getAll_call (\<lambda>scenes. ret (ScenesList (map scene_view_of scenes)))"

text \<open>
  In the cases below \<open>the\<close> is applied to a field only after the guard of the source has
  returned for the absent field.
\<close>

definition handle_set_color :: "MCPCommand \<Rightarrow> ('w, MCPResponse) act" where
  "handle_set_color command =
     (if \<not> truthy_str (lightId command) \<or> color command = None
      then ret (Error ''Missing lightId or color'')
      else try_catch
             (bnd (setLightState (the (lightId command)) (on_bri_rgb (the (color command))))
                  (\<lambda>_. ret Success))
             (catch_as ''Failed to set light color''))"

definition flash_cycle :: "string \<Rightarrow> rgb \<Rightarrow> ('w, unit) act" where
  "flash_cycle lid c =
     bnd (setLightState lid (on_bri_rgb c)) (\<lambda>_.
     bnd (wait 500) (\<lambda>_.
     bnd (setLightState lid [(''on'', JBool False)]) (\<lambda>_.
     wait 500)))"

text \<open>\<open>for (let i = 0; i < times; i++) { ... }\<close>; a throw in the body leaves the loop.\<close>

function flash_loop :: "string \<Rightarrow> rgb \<Rightarrow> int \<Rightarrow> int \<Rightarrow> ('w, unit) act" where
  "flash_loop lid c i n \<sigma> =
     (if i < n
      then (case flash_cycle lid c \<sigma> of
              (Inl e, \<sigma>') \<Rightarrow> (Inl e, \<sigma>')
            | (Inr u, \<sigma>') \<Rightarrow> flash_loop lid c (i + 1) n \<sigma>')
      else (Inr (), \<sigma>))"
  by pat_completeness auto
termination
  by (relation "measure (\<lambda>(lid, c, i, n, \<sigma>). nat (n - i))") auto

definition handle_flash :: "MCPCommand \<Rightarrow> ('w, MCPResponse) act" where
  "handle_flash command =
     (if \<not> truthy_str (lightId command) \<or> color command = None
      then ret (Error ''Missing lightId or color'')
      else try_catch
             (let times = or_default (times_f command) 3 in
              bnd (flash_loop (the (lightId command)) (the (color command)) 0 times) (\<lambda>_.
              bnd (setLightState (the (lightId command)) (on_bri_rgb (the (color command)))) (\<lambda>_.
              ret Success)))
             (catch_as ''Failed to flash light''))"

definition handle_set_brightness :: "MCPCommand \<Rightarrow> ('w, MCPResponse) act" where
  "handle_set_brightness command =
     (if \<not> truthy_str (lightId command) \<or> brightness command = None
      then ret (Error ''Missing lightId or brightness'')
      else try_catch
             (let bri = js_round (of_int (the (brightness command)) / 100 * 254) in
              bnd (setLightState (the (lightId command)) [(''on'', JBool True), (''bri'', JNum bri)])
                  (\<lambda>_. ret Success))
             (catch_as ''Failed to set brightness''))"

definition handle_set_effect :: "MCPCommand \<Rightarrow> ('w, MCPResponse) act" where
  "handle_set_effect command =
     (if \<not> truthy_str (lightId command) \<or> \<not> truthy_str (effectType command)
      then ret (Error ''Missing lightId or effectType'')
      else try_catch
             (bnd (setLightState (the (lightId command))
                     [(''effect'', JStr (the (effectType command)))])
                  (\<lambda>_. ret Success))
             (catch_as ''Failed to set effect''))"

definition handle_set_temperature :: "MCPCommand \<Rightarrow> ('w, MCPResponse) act" where
  "handle_set_temperature command =
     (if \<not> truthy_str (lightId command) \<or> \<not> truthy_num (temperature command)
      then ret (Error ''Missing lightId or temperature'')
      else try_catch
             (let ct = js_round (1000000 / of_int (the (temperature command))) in
              bnd (setLightState (the (lightId command)) [(''on'', JBool True), (''ct'', JNum ct)])
                  (\<lambda>_. ret Success))
             (catch_as ''Failed to set color temperature''))"

definition handle_activate_scene :: "MCPCommand \<Rightarrow> ('w, MCPResponse) act" where
  "handle_activate_scene command =
     (if \<not> truthy_str (scene command)
      then ret (Error ''Missing scene identifier'')
      else try_catch
             (bnd (activateScene (the (scene command))) (\<lambda>_. ret Success))
             (catch_as ''Failed to activate scene''))"

text \<open>
  The \<open>set_group_state\<close> case declares \<open>const state: any = {}\<close> inside its \<open>try\<close> block
  (line 325). Within that block the name \<open>state\<close> is this new object, not the module-level
  \<open>state\<close>, so \<open>state.bridge\<close> on line 333 reads a property of the object under
  construction. The properties such an object can hold are those of \<open>jsval\<close>; none of them
  is a bridge session, and reading \<open>groups\<close> from \<open>undefined\<close> throws. When the property
  holds a value, \<open>groups\<close> of that value is \<open>undefined\<close> and reading \<open>setGroupState\<close>
  from it throws.
\<close>

definition local_state_bridge :: "js_object \<Rightarrow> ('w, 'w Bridge) act" where
  "local_state_bridge obj =
     (case get_prop obj ''bridge'' of
        None \<Rightarrow> throw (type_error ''undefined'' ''groups'')
      | Some v \<Rightarrow> throw (type_error ''undefined'' ''setGroupState''))"

definition group_state_object :: "MCPCommand \<Rightarrow> js_object" where
  "group_state_object command =
     (let state0 = [];
          state1 = (case color command of
                      Some c \<Rightarrow> set_prop state0 ''rgb'' (JRgb c) | None \<Rightarrow> state0);
          state2 = (case brightness command of
                      Some b \<Rightarrow> set_prop state1 ''bri'' (JNum (js_round (of_int b / 100 * 254)))
                    | None \<Rightarrow> state1);
          state3 = (if truthy_num (temperature command)
                    then set_prop state2 ''ct''
                           (JNum (js_round (1000000 / of_int (the (temperature command)))))
                    else state2);
          state4 = (if truthy_str (effectType command)
                    then set_prop state3 ''effect'' (JStr (the (effectType command)))
                    else state3)
      in state4)"

definition handle_set_group_state :: "MCPCommand \<Rightarrow> ('w, MCPResponse) act" where
  "handle_set_group_state command =
     (if \<not> truthy_str (group_f command)
      then ret (Error ''Missing group identifier'')
      else try_catch
             (let state = group_state_object command in
              bnd (local_state_bridge state) (\<lambda>B.
              bnd (invoke (SetGroupState (the (group_f command)) state)
                     (groups_setGroupState B (the (group_f command)) state)) (\<lambda>_.
              ret Success)))
             (catch_as ''Failed to set group state''))"

definition colors :: "rgb list" where
  "colors = [(255, 0, 0), (255, 0, 255), (0, 0, 255), (0, 255, 255), (0, 255, 0), (255, 255, 0)]"

text \<open>\<open>setInterval(callback, speed)\<close>: a new active timer; its handle is its index.\<close>

definition setInterval :: "disco_job \<Rightarrow> ('w, nat) act" where
  "setInterval job = (\<lambda>\<sigma>. (Inr (length (timers \<sigma>)), \<sigma>\<lparr>timers := timers \<sigma> @ [job]\<rparr>))"

definition date_now :: "('w, int) act" where
  "date_now = (\<lambda>\<sigma>. (Inr (clock \<sigma>), \<sigma>))"

definition handle_disco :: "MCPCommand \<Rightarrow> ('w, MCPResponse) act" where
  "handle_disco command =
     (if \<not> truthy_str (lightId command)
      then ret (Error ''Missing lightId'')
      else try_catch
             (let duration = or_default (duration command) 30;
                  speed = or_default (speed command) 500 in
              bnd date_now (\<lambda>startTime.
              bnd (setInterval \<lparr>job_lightId = lightId command, job_duration = duration,
                                job_speed = speed, colorIndex = 0, startTime = startTime,
                                active = True\<rparr>) (\<lambda>interval.
              ret Success)))
             (catch_as ''Failed to start disco effect''))"

definition handle_turn_off :: "MCPCommand \<Rightarrow> ('w, MCPResponse) act" where
  "handle_turn_off command =
     (if \<not> truthy_str (lightId command)
      then ret (Error ''Missing lightId'')
      else try_catch
             (bnd (setLightState (the (lightId command)) [(''on'', JBool False)])
                  (\<lambda>_. ret Success))
             (catch_as ''Failed to turn off light''))"

definition handleCommand :: "MCPCommand \<Rightarrow> ('w, MCPResponse) act" where
  "handleCommand command =
     (if type command = ''get_lights'' then handle_get_lights
      else if type command = ''get_groups'' then handle_get_groups
      else if type command = ''get_scenes'' then handle_get_scenes
      else if type command = ''set_color'' then handle_set_color command
      else if type command = ''flash'' then handle_flash command
      else if type command = ''set_brightness'' then handle_set_brightness command
      else if type command = ''set_effect'' then handle_set_effect command
      else if type command = ''set_temperature'' then handle_set_temperature command
      else if type command = ''activate_scene'' then handle_activate_scene command
      else if type command = ''set_group_state'' then handle_set_group_state command
      else if type command = ''disco'' then handle_disco command
      else if type command = ''turn_off'' then handle_turn_off command
      else ret (Error ''Unknown command''))"

section \<open>The session layer: \<open>handleMessage\<close> and the data handler\<close>

text \<open>
  \<open>JSON.parse\<close> is a parameter: it returns a command as \<open>MCPCommand\<close> declares it, or
  throws. The handler of one message is \<open>handleMessage\<close>; the data handler attaches
  \<open>.catch(error => socket.write('Internal server error'))\<close> to its promise.
  The promise is not awaited by the data handler, and handlers of several messages may
  interleave at their suspension points; the model runs each handler to its end.
\<close>

definition handleMessage ::
  "(string \<Rightarrow> js_thrown + MCPCommand) \<Rightarrow> string \<Rightarrow> nat \<Rightarrow> ('w, unit) act" where
  "handleMessage JSON_parse message socket =
     try_catch
       (bnd (lift (JSON_parse message)) (\<lambda>command.
        bnd (handleCommand command) (\<lambda>response.
        socket_write socket response)))
       (\<lambda>error. bnd (lift (message_or error ''Invalid command format'')) (\<lambda>m.
                 socket_write socket (Error m)))"

definition on_message ::
  "(string \<Rightarrow> js_thrown + MCPCommand) \<Rightarrow> string \<Rightarrow> nat \<Rightarrow> ('w, unit) act" where
  "on_message JSON_parse message socket =
     try_catch (handleMessage JSON_parse message socket)
       (\<lambda>error. socket_write socket (Error ''Internal server error''))"

definition newline :: char where
  "newline = CHR 0x0A"

text \<open>\<open>String.prototype.indexOf\<close> for a single character: the first index, or \<open>-1\<close>.\<close>

fun indexOf :: "string \<Rightarrow> char \<Rightarrow> int" where
  "indexOf [] c = - 1"
| "indexOf (x # xs) c =
     (if x = c then 0 else (let r = indexOf xs c in if r = - 1 then - 1 else r + 1))"

text \<open>
  The \<open>while\<close> loop of the data handler, on the buffer after \<open>buffer += data.toString()\<close>.
  It returns the buffer that the connection keeps.
\<close>

function data_loop ::
  "(string \<Rightarrow> js_thrown + MCPCommand) \<Rightarrow> nat \<Rightarrow> string \<Rightarrow> 'w sys \<Rightarrow> string \<times> 'w sys" where
  "data_loop JSON_parse socket buffer \<sigma> =
     (let newlineIndex = indexOf buffer newline in
      if newlineIndex \<noteq> - 1
      then (let message = take (nat newlineIndex) buffer;
                buffer' = drop (nat (newlineIndex + 1)) buffer
            in data_loop JSON_parse socket buffer' (snd (on_message JSON_parse message socket \<sigma>)))
      else (buffer, \<sigma>))"
  by pat_completeness auto
termination
proof (relation "measure (\<lambda>(p, s, buffer, \<sigma>). length buffer)")
  show "wf (measure (\<lambda>(p, s, buffer, \<sigma>). length buffer))"
    by simp
next
  fix JSON_parse :: "string \<Rightarrow> js_thrown + MCPCommand"
    and socket :: nat and buffer :: string and \<sigma> :: "'w sys"
    and newlineIndex :: int and message buffer' :: string
  assume found: "newlineIndex = indexOf buffer newline" "newlineIndex \<noteq> - 1"
    and rest: "buffer' = drop (nat (newlineIndex + 1)) buffer"
  have "indexOf xs c \<noteq> - 1 \<Longrightarrow> 0 \<le> indexOf xs c \<and> indexOf xs c < int (length xs)" for xs c
    by (induction xs) (auto simp: Let_def split: if_splits)
  with found have "0 \<le> newlineIndex \<and> newlineIndex < int (length buffer)"
    by simp
  with rest have "length buffer' < length buffer"
    by auto
  then show "((JSON_parse, socket, buffer', snd (on_message JSON_parse message socket \<sigma>)),
              (JSON_parse, socket, buffer, \<sigma>)) \<in> measure (\<lambda>(p, s, buffer, \<sigma>). length buffer)"
    by simp
qed

definition on_data ::
  "(string \<Rightarrow> js_thrown + MCPCommand) \<Rightarrow> nat \<Rightarrow> string \<Rightarrow> string \<Rightarrow> 'w sys \<Rightarrow> string \<times> 'w sys" where
  "on_data JSON_parse socket buffer data \<sigma> = data_loop JSON_parse socket (buffer @ data) \<sigma>"

definition on_connect :: "nat \<Rightarrow> ('w, unit) act" where
  "on_connect socket =
     socket_write socket
       (Hello ''1.0.0'' [''lights'', ''colors'', ''flash'', ''brightness'', ''effects'',
                         ''temperature'', ''scenes'', ''groups'', ''disco''])"

section \<open>Startup: \<open>initializeHueBridge\<close>\<close>

text \<open>
  \<open>v3.api.createLocal(host).connect(username)\<close> is a parameter. The \<open>catch\<close> of the source
  logs and rethrows, so a throw leaves the function unchanged.
\<close>

definition initializeHueBridge ::
  "string option \<Rightarrow> string option \<Rightarrow>
   (string \<Rightarrow> string \<Rightarrow> 'w \<Rightarrow> (js_thrown + 'w Bridge) \<times> 'w) \<Rightarrow> ('w, unit) act" where
  "initializeHueBridge host username connect =
     (if \<not> truthy_str host \<or> \<not> truthy_str username
      then throw (JsError ''HUE_BRIDGE_IP and HUE_USERNAME environment variables must be set'')
      else bnd (\<lambda>\<sigma>. case connect (the host) (the username) (world \<sigma>) of
                       (r, w') \<Rightarrow> (r, \<sigma>\<lparr>world := w'\<rparr>)) (\<lambda>B.
           bnd (\<lambda>\<sigma>. (Inr (), \<sigma>\<lparr>hue := (hue \<sigma>)\<lparr>bridge := Some B\<rparr>\<rparr>)) (\<lambda>_.
           bnd lights_getAll_call (\<lambda>ls.
           (\<lambda>\<sigma>. (Inr (), \<sigma>\<lparr>hue := (hue \<sigma>)\<lparr>lights := ls\<rparr>\<rparr>))))))"

section \<open>The effect engine: one tick of a \<open>disco\<close> timer\<close>

text \<open>\<open>colors[i]\<close>: \<open>undefined\<close> outside the array.\<close>

definition color_at :: "nat \<Rightarrow> jsval" where
  "color_at i = (if i < length colors then JRgb (colors ! i) else JUndefined)"

text \<open>
  The callback given to \<open>setInterval\<close>. The runtime calls it only while the timer is active.
  Its \<open>catch\<close> logs and returns, so a throw of the bridge call skips the rest of the body.
  \<open>Date.now()\<close> is read after the awaited call.
\<close>

definition disco_tick :: "nat \<Rightarrow> 'w sys \<Rightarrow> 'w sys" where
  "disco_tick interval \<sigma> =
     (if interval < length (timers \<sigma>) \<and> active (timers \<sigma> ! interval)
      then (let job = timers \<sigma> ! interval in
            case setLightState (the (job_lightId job))
                   [(''on'', JBool True), (''bri'', JNum 254),
                    (''rgb'', color_at (colorIndex job)), (''transitiontime'', JNum 0)] \<sigma> of
              (Inl error, \<sigma>') \<Rightarrow> \<sigma>'
            | (Inr u, \<sigma>') \<Rightarrow>
                (let job1 = (timers \<sigma>' ! interval)
                              \<lparr>colorIndex := (colorIndex (timers \<sigma>' ! interval) + 1) mod length colors\<rparr>;
                     job2 = (if clock \<sigma>' - startTime job1 \<ge> job_duration job1 * 1000
                             then job1\<lparr>active := False\<rparr> else job1)
                 in \<sigma>'\<lparr>timers := (timers \<sigma>')[interval := job2]\<rparr>))
      else \<sigma>)"

section \<open>The event loop\<close>

text \<open>
  What can happen to a running server: a command is interpreted, a timer fires, time
  passes, or something outside changes the world behind the bridge.
\<close>

datatype 'w input = Command MCPCommand | Tick nat | Elapse nat | External "'w \<Rightarrow> 'w"

fun step :: "'w input \<Rightarrow> 'w sys \<Rightarrow> 'w sys" where
  "step (Command command) \<sigma> = snd (handleCommand command \<sigma>)"
| "step (Tick interval) \<sigma> = disco_tick interval \<sigma>"
| "step (Elapse ms) \<sigma> = \<sigma>\<lparr>clock := clock \<sigma> + int ms\<rparr>"
| "step (External f) \<sigma> = \<sigma>\<lparr>world := f (world \<sigma>)\<rparr>"

definition run :: "'w input list \<Rightarrow> 'w sys \<Rightarrow> 'w sys" where
  "run inputs \<sigma> = fold step inputs \<sigma>"

section \<open>Vocabulary of the properties\<close>

text \<open>
  An action upholds a relation between the state before and the state after when every
  run of it, returning or throwing, relates the two.
\<close>

definition upholds :: "('w sys \<Rightarrow> 'w sys \<Rightarrow> bool) \<Rightarrow> ('w, 'a) act \<Rightarrow> bool" where
  "upholds R m = (\<forall>\<sigma>. R \<sigma> (snd (m \<sigma>)))"

text \<open>
  The command types of the \<open>switch\<close>, and the fields that the spec's table of operations
  requires for each; a field is lacking when the command does not carry it.
\<close>

definition command_types :: "string list" where
  "command_types = [''get_lights'', ''get_groups'', ''get_scenes'', ''set_color'', ''flash'',
     ''set_brightness'', ''set_effect'', ''set_temperature'', ''activate_scene'',
     ''set_group_state'', ''disco'', ''turn_off'']"

definition lacks_required_field :: "MCPCommand \<Rightarrow> bool" where
  "lacks_required_field c =
     ((type c = ''set_color'' \<or> type c = ''flash'') \<and> (lightId c = None \<or> color c = None)
      \<or> type c = ''set_brightness'' \<and> (lightId c = None \<or> brightness c = None)
      \<or> type c = ''set_effect'' \<and> (lightId c = None \<or> effectType c = None)
      \<or> type c = ''set_temperature'' \<and> (lightId c = None \<or> temperature c = None)
      \<or> type c = ''activate_scene'' \<and> scene c = None
      \<or> type c = ''set_group_state'' \<and> group_f c = None
      \<or> (type c = ''disco'' \<or> type c = ''turn_off'') \<and> lightId c = None)"

text \<open>What a client can observe on its connection.\<close>

fun is_socket_event :: "event \<Rightarrow> bool" where
  "is_socket_event (SocketWrite s r) = True"
| "is_socket_event (SocketEnd s) = True"
| "is_socket_event (BridgeCall c) = False"
| "is_socket_event (Wait ms) = False"

definition socket_events :: "event list \<Rightarrow> event list" where
  "socket_events tr = filter is_socket_event tr"

text \<open>Relations between the state before and the state after, for the frame lemmas.\<close>

definition same_socket_events :: "'w sys \<Rightarrow> 'w sys \<Rightarrow> bool" where
  "same_socket_events \<sigma> \<sigma>' = (socket_events (trace \<sigma>') = socket_events (trace \<sigma>))"

text \<open>The calls that reached the bridge, in order, and the events of one flash cycle.\<close>

fun bridge_calls :: "event list \<Rightarrow> bridge_call list" where
  "bridge_calls [] = []"
| "bridge_calls (BridgeCall c # tr) = c # bridge_calls tr"
| "bridge_calls (Wait ms # tr) = bridge_calls tr"
| "bridge_calls (SocketWrite s r # tr) = bridge_calls tr"
| "bridge_calls (SocketEnd s # tr) = bridge_calls tr"

definition flash_cycle_events :: "string \<Rightarrow> rgb \<Rightarrow> event list" where
  "flash_cycle_events lid c =
     [BridgeCall (SetLightState lid [(''on'', JBool True), (''bri'', JNum 254), (''rgb'', JRgb c)]),
      Wait 500,
      BridgeCall (SetLightState lid [(''on'', JBool False)]),
      Wait 500]"




definition same_hue :: "'w sys \<Rightarrow> 'w sys \<Rightarrow> bool" where
  "same_hue \<sigma> \<sigma>' = (hue \<sigma>' = hue \<sigma>)"

text \<open>How many \<open>lights.getAll\<close> calls a trace holds.\<close>

definition lights_fetches :: "event list \<Rightarrow> nat" where
  "lights_fetches tr = length (filter (\<lambda>c. c = LightsGetAll) (bridge_calls tr))"

definition same_lights_fetches :: "'w sys \<Rightarrow> 'w sys \<Rightarrow> bool" where
  "same_lights_fetches \<sigma> \<sigma>' = (lights_fetches (trace \<sigma>') = lights_fetches (trace \<sigma>))"

definition cursors_in_palette :: "'w sys \<Rightarrow> bool" where
  "cursors_in_palette \<sigma> = (\<forall>job \<in> set (timers \<sigma>). colorIndex job < length colors)"

definition keeps_cursors_in_palette :: "'w sys \<Rightarrow> 'w sys \<Rightarrow> bool" where
  "keeps_cursors_in_palette \<sigma> \<sigma>' = (cursors_in_palette \<sigma> \<longrightarrow> cursors_in_palette \<sigma>')"

section \<open>Concrete inputs\<close>

text \<open>
  A command with no optional field; a bridge that accepts every call and reports the lights
  of its world; a running server whose stored light list is older than the world; decoders
  that know one line; a server with one running \<open>disco\<close> timer whose duration has
  passed; a server before and after startup.
\<close>

definition command0 :: "string \<Rightarrow> MCPCommand" where
  "command0 t = \<lparr>type = t, lightId = None, color = None, times_f = None, brightness = None,
     effectType = None, transitionTime = None, alert = None, temperature = None, scene = None,
     group_f = None, duration = None, speed = None\<rparr>"

definition bridge0 :: "bridge_light list Bridge" where
  "bridge0 = \<lparr>lights_getAll = (\<lambda>w. (Inr w, w)),
              groups_getAll = (\<lambda>w. (Inr [BridgeGroup ''1'' ''Kitchen'' [''1''] ''{}'' ''''], w)),
              scenes_getAll = (\<lambda>w. (Inr [BridgeScene ''s1'' ''Relax'' [''1''] ''''], w)),
              lights_setLightState = (\<lambda>lid st w. (Inr (), w)),
              groups_setGroupState = (\<lambda>gid st w. (Inr (), w)),
              scenes_activateScene = (\<lambda>sc w. (Inr (), w))\<rparr>"

definition sys0 :: "bridge_light list sys" where
  "sys0 = \<lparr>hue = \<lparr>bridge = Some bridge0, lights = [BridgeLight ''1'' ''Desk'' ''{on:false}'' '''']\<rparr>,
           world = [BridgeLight ''1'' ''Desk'' ''{on:true}'' ''''],
           clock = 0, timers = [], trace = []\<rparr>"

definition parse0 :: "string \<Rightarrow> js_thrown + MCPCommand" where
  "parse0 s = (if s = ''get_lights'' then Inr (command0 ''get_lights'')
               else Inl (JsError ''Unexpected token''))"

definition parse_flash :: "string \<Rightarrow> js_thrown + MCPCommand" where
  "parse_flash s = Inr ((command0 ''flash'')\<lparr>lightId := Some ''2'', color := Some (0, 255, 0),
                                         times_f := Some 2\<rparr>)"


definition connect0 :: "string \<Rightarrow> string \<Rightarrow> bridge_light list \<Rightarrow>
    (js_thrown + bridge_light list Bridge) \<times> bridge_light list" where
  "connect0 host username w = (Inr bridge0, w)"

definition sys_boot :: "bridge_light list sys" where
  "sys_boot = \<lparr>hue = \<lparr>bridge = None, lights = []\<rparr>,
               world = [BridgeLight ''1'' ''Desk'' ''{on:false}'' ''''],
               clock = 0, timers = [], trace = []\<rparr>"

definition sys_started :: "bridge_light list sys" where
  "sys_started = sys_boot\<lparr>hue := \<lparr>bridge = Some bridge0,
                                    lights = [BridgeLight ''1'' ''Desk'' ''{on:false}'' '''']\<rparr>,
                           trace := [BridgeCall LightsGetAll]\<rparr>"

section \<open>Lemmas on the effects\<close>

lemma ret_apply: "ret x \<sigma> = (Inr x, \<sigma>)"
  by (simp add: ret_def)

lemma throw_apply: "throw e \<sigma> = (Inl e, \<sigma>)"
  by (simp add: throw_def)

lemma lift_apply: "lift r \<sigma> = (r, \<sigma>)"
  by (simp add: lift_def)

lemma bnd_apply:
  "bnd m f \<sigma> = (case m \<sigma> of (Inl e, \<sigma>') \<Rightarrow> (Inl e, \<sigma>') | (Inr x, \<sigma>') \<Rightarrow> f x \<sigma>')"
  by (simp add: bnd_def)

lemma try_catch_apply:
  "try_catch m h \<sigma> = (case m \<sigma> of (Inl e, \<sigma>') \<Rightarrow> h e \<sigma>' | (Inr x, \<sigma>') \<Rightarrow> (Inr x, \<sigma>'))"
  by (simp add: try_catch_def)

lemmas act_apply = ret_apply throw_apply lift_apply bnd_apply try_catch_apply

lemma upholds_ret: "reflp R \<Longrightarrow> upholds R (ret x)"
  by (simp add: upholds_def ret_def reflp_def)

lemma upholds_throw: "reflp R \<Longrightarrow> upholds R (throw e)"
  by (simp add: upholds_def throw_def reflp_def)

lemma upholds_lift: "reflp R \<Longrightarrow> upholds R (lift r)"
  by (simp add: upholds_def lift_def reflp_def)

lemma upholds_bnd:
  assumes "transp R" and "upholds R m" and "\<And>x. upholds R (f x)"
  shows "upholds R (bnd m f)"
  unfolding upholds_def
proof
  fix \<sigma>
  obtain r \<sigma>' where m: "m \<sigma> = (r, \<sigma>')" by (cases "m \<sigma>")
  from assms(2) m have 1: "R \<sigma> \<sigma>'" by (auto simp: upholds_def dest: spec [of _ \<sigma>])
  show "R \<sigma> (snd (bnd m f \<sigma>))"
  proof (cases r)
    case (Inl e)
    with m 1 show ?thesis by (simp add: bnd_def)
  next
    case (Inr x)
    from assms(3) [of x] have "R \<sigma>' (snd (f x \<sigma>'))" by (simp add: upholds_def)
    with 1 assms(1) have "R \<sigma> (snd (f x \<sigma>'))" by (blast dest: transpD)
    with m Inr show ?thesis by (simp add: bnd_def)
  qed
qed

lemma upholds_try_catch:
  assumes "transp R" and "upholds R m" and "\<And>e. upholds R (h e)"
  shows "upholds R (try_catch m h)"
  unfolding upholds_def
proof
  fix \<sigma>
  obtain r \<sigma>' where m: "m \<sigma> = (r, \<sigma>')" by (cases "m \<sigma>")
  from assms(2) m have 1: "R \<sigma> \<sigma>'" by (auto simp: upholds_def dest: spec [of _ \<sigma>])
  show "R \<sigma> (snd (try_catch m h \<sigma>))"
  proof (cases r)
    case (Inr x)
    with m 1 show ?thesis by (simp add: try_catch_def)
  next
    case (Inl e)
    from assms(3) [of e] have "R \<sigma>' (snd (h e \<sigma>'))" by (simp add: upholds_def)
    with 1 assms(1) have "R \<sigma> (snd (h e \<sigma>'))" by (blast dest: transpD)
    with m Inl show ?thesis by (simp add: try_catch_def)
  qed
qed

lemma upholds_state_bridge: "reflp R \<Longrightarrow> upholds R (state_bridge p)"
  by (simp add: upholds_def state_bridge_def reflp_def split: option.split)

lemma upholds_catch_as: "reflp R \<Longrightarrow> transp R \<Longrightarrow> upholds R (catch_as d e)"
  unfolding catch_as_def by (intro upholds_bnd upholds_lift upholds_ret)

lemma upholds_invoke:
  assumes "\<And>\<sigma> w. R \<sigma> (\<sigma>\<lparr>world := w, trace := trace \<sigma> @ [BridgeCall c]\<rparr>)"
  shows "upholds R (invoke c op)"
  using assms by (simp add: upholds_def invoke_def split: prod.split)

lemma upholds_wait:
  assumes "\<And>\<sigma> ms. R \<sigma> (\<sigma>\<lparr>clock := clock \<sigma> + ms, trace := trace \<sigma> @ [Wait ms]\<rparr>)"
  shows "upholds R (wait ms)"
  using assms by (simp add: upholds_def wait_def)

lemma upholds_setLightState:
  assumes "reflp R" "transp R"
    and "\<And>\<sigma> w c. c \<noteq> LightsGetAll \<Longrightarrow>
           R \<sigma> (\<sigma>\<lparr>world := w, trace := trace \<sigma> @ [BridgeCall c]\<rparr>)"
  shows "upholds R (setLightState lid st)"
  unfolding setLightState_def
  by (intro upholds_bnd upholds_state_bridge upholds_invoke assms) simp

lemma upholds_flash_cycle:
  assumes "reflp R" "transp R"
    and "\<And>\<sigma> w c. c \<noteq> LightsGetAll \<Longrightarrow>
           R \<sigma> (\<sigma>\<lparr>world := w, trace := trace \<sigma> @ [BridgeCall c]\<rparr>)"
    and "\<And>\<sigma> ms. R \<sigma> (\<sigma>\<lparr>clock := clock \<sigma> + ms, trace := trace \<sigma> @ [Wait ms]\<rparr>)"
  shows "upholds R (flash_cycle lid c)"
  unfolding flash_cycle_def
  by (intro upholds_bnd upholds_setLightState [OF assms(1-3)] upholds_wait assms(2,4))

lemma upholds_flash_loop:
  assumes "reflp R" "transp R"
    and "\<And>\<sigma> w c. c \<noteq> LightsGetAll \<Longrightarrow>
           R \<sigma> (\<sigma>\<lparr>world := w, trace := trace \<sigma> @ [BridgeCall c]\<rparr>)"
    and "\<And>\<sigma> ms. R \<sigma> (\<sigma>\<lparr>clock := clock \<sigma> + ms, trace := trace \<sigma> @ [Wait ms]\<rparr>)"
  shows "upholds R (flash_loop lid c i n)"
  unfolding upholds_def
proof
  fix \<sigma> :: "'a sys"
  show "R \<sigma> (snd (flash_loop lid c i n \<sigma>))"
  proof (induction lid c i n \<sigma> rule: flash_loop.induct)
    case (1 lid c i n \<sigma>)
    show ?case
    proof (cases "i < n")
      case False
      with assms(1) show ?thesis by (simp add: reflp_def)
    next
      case True
      obtain r \<sigma>' where fc: "flash_cycle lid c \<sigma> = (r, \<sigma>')" by (cases "flash_cycle lid c \<sigma>")
      from upholds_flash_cycle [OF assms, of lid c] fc have R1: "R \<sigma> \<sigma>'"
        by (auto simp: upholds_def dest: spec [of _ \<sigma>])
      show ?thesis
      proof (cases r)
        case (Inl e)
        with True fc R1 show ?thesis by simp
      next
        case (Inr u)
        from "1.IH" [OF True fc [symmetric] Inr]
        have "R \<sigma>' (snd (flash_loop lid c (i + 1) n \<sigma>'))" .
        with R1 assms(2) have "R \<sigma> (snd (flash_loop lid c (i + 1) n \<sigma>'))"
          by (blast dest: transpD)
        with True fc Inr show ?thesis by simp
      qed
    qed
  qed
qed

lemma upholds_handleCommand:
  assumes "reflp R" "transp R"
    and "\<And>\<sigma> w c. c \<noteq> LightsGetAll \<Longrightarrow>
           R \<sigma> (\<sigma>\<lparr>world := w, trace := trace \<sigma> @ [BridgeCall c]\<rparr>)"
    and "\<And>\<sigma> ms. R \<sigma> (\<sigma>\<lparr>clock := clock \<sigma> + ms, trace := trace \<sigma> @ [Wait ms]\<rparr>)"
    and "\<And>\<sigma> job. colorIndex job = 0 \<Longrightarrow> active job \<Longrightarrow>
           R \<sigma> (\<sigma>\<lparr>timers := timers \<sigma> @ [job]\<rparr>)"
  shows "upholds R (handleCommand command)"
proof -
  note prim = upholds_ret [OF assms(1)] upholds_throw [OF assms(1)]
    upholds_state_bridge [OF assms(1)] upholds_catch_as [OF assms(1,2)]
    upholds_setLightState [OF assms(1-3)] upholds_flash_loop [OF assms(1-4)]
  have inv: "upholds R (invoke c op)" if "c \<noteq> LightsGetAll" for c and op :: "'a \<Rightarrow> (js_thrown + 'b) \<times> 'a"
    by (rule upholds_invoke) (rule assms(3) [OF that])
  have sl: "upholds R state_lights"
    using assms(1) by (simp add: upholds_def state_lights_def reflp_def)
  have dn: "upholds R date_now"
    using assms(1) by (simp add: upholds_def date_now_def reflp_def)
  have si: "upholds R (setInterval job)" if "colorIndex job = 0" and "active job" for job
    using assms(5) [OF that] by (simp add: upholds_def setInterval_def)
  have lb: "upholds R (local_state_bridge obj)" for obj
    unfolding local_state_bridge_def
    by (simp add: upholds_throw [OF assms(1)] split: option.split)
  have 1: "upholds R handle_get_lights"
    unfolding handle_get_lights_def by (intro upholds_bnd assms(2) sl prim)
  have 2: "upholds R handle_get_groups"
    unfolding handle_get_groups_def groups_getAll_call_def
    by (intro upholds_bnd assms(2) prim inv) simp
  have 3: "upholds R handle_get_scenes"
    unfolding handle_get_scenes_def scenes_getAll_call_def
    by (intro upholds_bnd assms(2) prim inv) simp
  have 4: "upholds R (handle_set_color command)"
    unfolding handle_set_color_def
    by (simp add: prim) (intro impI upholds_try_catch upholds_bnd assms(2) prim)
  have 5: "upholds R (handle_flash command)"
    unfolding handle_flash_def Let_def
    by (simp add: prim) (intro impI upholds_try_catch upholds_bnd assms(2) prim)
  have 6: "upholds R (handle_set_brightness command)"
    unfolding handle_set_brightness_def Let_def
    by (simp add: prim) (intro impI upholds_try_catch upholds_bnd assms(2) prim)
  have 7: "upholds R (handle_set_effect command)"
    unfolding handle_set_effect_def
    by (simp add: prim) (intro impI upholds_try_catch upholds_bnd assms(2) prim)
  have 8: "upholds R (handle_set_temperature command)"
    unfolding handle_set_temperature_def Let_def
    by (simp add: prim) (intro impI upholds_try_catch upholds_bnd assms(2) prim)
  have 9: "upholds R (handle_activate_scene command)"
    unfolding handle_activate_scene_def activateScene_def
    by (simp add: prim) (intro impI upholds_try_catch upholds_bnd assms(2) prim inv, simp)
  have 10: "upholds R (handle_set_group_state command)"
    unfolding handle_set_group_state_def Let_def
    by (simp add: prim) (intro impI upholds_try_catch upholds_bnd assms(2) prim lb inv, simp)
  have 11: "upholds R (handle_disco command)"
    unfolding handle_disco_def Let_def
    by (simp add: prim) (intro impI upholds_try_catch upholds_bnd assms(2) prim dn si, simp_all)
  have 12: "upholds R (handle_turn_off command)"
    unfolding handle_turn_off_def
    by (simp add: prim) (intro impI upholds_try_catch upholds_bnd assms(2) prim)
  show ?thesis
    unfolding handleCommand_def using 1 2 3 4 5 6 7 8 9 10 11 12
    by (simp add: upholds_ret [OF assms(1)])
qed

section \<open>Framing of the byte stream\<close>

lemma indexOf_lower: "- 1 \<le> indexOf xs c"
  by (induction xs) (auto simp: Let_def)

lemma indexOf_nonneg: "indexOf xs c \<noteq> - 1 \<Longrightarrow> 0 \<le> indexOf xs c"
  using indexOf_lower [of xs c] by arith

lemma indexOf_absent: "indexOf xs c = - 1 \<Longrightarrow> c \<notin> set xs"
proof (induction xs)
  case Nil
  then show ?case by simp
next
  case (Cons x xs)
  from indexOf_lower [of xs c] Cons show ?case
    by (auto simp: Let_def split: if_splits)
qed

lemma indexOf_found:
  "indexOf xs c \<noteq> - 1 \<Longrightarrow>
     xs = take (nat (indexOf xs c)) xs @ c # drop (nat (indexOf xs c + 1)) xs \<and>
     c \<notin> set (take (nat (indexOf xs c)) xs)"
proof (induction xs)
  case Nil
  then show ?case by simp
next
  case (Cons x xs)
  show ?case
  proof (cases "x = c")
    case True
    then show ?thesis by simp
  next
    case False
    with Cons.prems have ne: "indexOf xs c \<noteq> - 1"
      by (auto simp: Let_def split: if_splits)
    then have nn: "0 \<le> indexOf xs c" by (rule indexOf_nonneg)
    from False ne have eq: "indexOf (x # xs) c = indexOf xs c + 1"
      by (simp add: Let_def)
    from nn have n1: "nat (indexOf xs c + 1) = Suc (nat (indexOf xs c))" by simp
    from nn have n2: "nat (indexOf xs c + 1 + 1) = Suc (Suc (nat (indexOf xs c)))" by simp
    from Cons.IH [OF ne] False show ?thesis
      unfolding eq n1 n2 by simp
  qed
qed

lemma data_loop_frames:
  "\<exists>msgs rest.
     buffer = concat (map (\<lambda>m. m @ [newline]) msgs) @ rest \<and>
     newline \<notin> set rest \<and>
     (\<forall>m \<in> set msgs. newline \<notin> set m) \<and>
     data_loop JSON_parse socket buffer \<sigma> =
       (rest, fold (\<lambda>m \<sigma>. snd (on_message JSON_parse m socket \<sigma>)) msgs \<sigma>)"
proof (induction JSON_parse socket buffer \<sigma> rule: data_loop.induct)
  case (1 JSON_parse socket buffer \<sigma>)
  let ?i = "indexOf buffer newline"
  show ?case
  proof (cases "?i = - 1")
    case True
    then have "newline \<notin> set buffer" by (rule indexOf_absent)
    with True have
      "buffer = concat (map (\<lambda>m. m @ [newline]) []) @ buffer \<and>
       newline \<notin> set buffer \<and> (\<forall>m \<in> set []. newline \<notin> set m) \<and>
       data_loop JSON_parse socket buffer \<sigma> =
         (buffer, fold (\<lambda>m \<sigma>. snd (on_message JSON_parse m socket \<sigma>)) [] \<sigma>)"
      by simp
    then show ?thesis by blast
  next
    case False
    let ?m = "take (nat ?i) buffer"
    let ?b = "drop (nat (?i + 1)) buffer"
    let ?\<sigma> = "snd (on_message JSON_parse ?m socket \<sigma>)"
    from "1.IH" [OF refl False refl refl]
    obtain msgs rest where
      b: "?b = concat (map (\<lambda>m. m @ [newline]) msgs) @ rest"
      and r: "newline \<notin> set rest"
      and ms: "\<forall>m \<in> set msgs. newline \<notin> set m"
      and dl: "data_loop JSON_parse socket ?b ?\<sigma> =
                 (rest, fold (\<lambda>m \<sigma>. snd (on_message JSON_parse m socket \<sigma>)) msgs ?\<sigma>)"
      by blast
    from indexOf_found [OF False]
    have split: "buffer = ?m @ newline # ?b" and clean: "newline \<notin> set ?m"
      by blast+
    from split b have "buffer = concat (map (\<lambda>m. m @ [newline]) (?m # msgs)) @ rest"
      by simp
    moreover from ms clean have "\<forall>m \<in> set (?m # msgs). newline \<notin> set m"
      by simp
    moreover from False dl have "data_loop JSON_parse socket buffer \<sigma> =
        (rest, fold (\<lambda>m \<sigma>. snd (on_message JSON_parse m socket \<sigma>)) (?m # msgs) \<sigma>)"
      by (subst data_loop.simps) (simp add: Let_def)
    ultimately show ?thesis using r by blast
  qed
qed

text \<open>
  C8. The data handler appends the chunk to the buffer of the connection and splits the
  result at newlines: the text is the extracted messages, each followed by a newline, and
  then the new buffer; no message and not the new buffer contains a newline; the messages
  are handed to the message handler in their order. So with no newline in buffer and
  chunk nothing is handled and everything is kept.
\<close>

theorem data_handler_frames_messages:
  "(\<exists>msgs rest.
      buffer @ data = concat (map (\<lambda>m. m @ [newline]) msgs) @ rest \<and>
      newline \<notin> set rest \<and>
      (\<forall>m \<in> set msgs. newline \<notin> set m) \<and>
      on_data JSON_parse socket buffer data \<sigma> =
        (rest, fold (\<lambda>m \<sigma>. snd (on_message JSON_parse m socket \<sigma>)) msgs \<sigma>)) \<and>
   (newline \<notin> set (buffer @ data) \<longrightarrow>
      on_data JSON_parse socket buffer data \<sigma> = (buffer @ data, \<sigma>))"
proof
  show "\<exists>msgs rest.
      buffer @ data = concat (map (\<lambda>m. m @ [newline]) msgs) @ rest \<and>
      newline \<notin> set rest \<and>
      (\<forall>m \<in> set msgs. newline \<notin> set m) \<and>
      on_data JSON_parse socket buffer data \<sigma> =
        (rest, fold (\<lambda>m \<sigma>. snd (on_message JSON_parse m socket \<sigma>)) msgs \<sigma>)"
    unfolding on_data_def by (rule data_loop_frames)
next
  show "newline \<notin> set (buffer @ data) \<longrightarrow>
      on_data JSON_parse socket buffer data \<sigma> = (buffer @ data, \<sigma>)"
  proof
    assume a: "newline \<notin> set (buffer @ data)"
    have "indexOf (buffer @ data) newline = - 1"
    proof (rule ccontr)
      assume "indexOf (buffer @ data) newline \<noteq> - 1"
      from indexOf_found [OF this] have "newline \<in> set (buffer @ data)"
        by (metis in_set_conv_decomp)
      with a show False by simp
    qed
    then show "on_data JSON_parse socket buffer data \<sigma> = (buffer @ data, \<sigma>)"
      unfolding on_data_def by (subst data_loop.simps) (simp add: Let_def)
  qed
qed

theorem data_handler_frames_messages_witness:
  "on_data parse0 0 ''get_li'' ''ghts'' sys0 = (''get_lights'', sys0)"
  using data_handler_frames_messages [of "''get_li''" "''ghts''" parse0 0 sys0]
  by (simp add: newline_def)

section \<open>Validation errors\<close>

text \<open>
  C6. A command of a known type that lacks a field required for that type is answered by an
  error response with a non-empty text, and a command of an unknown type by the error
  response \<open>Unknown command\<close>. In both cases the state after is the state before: the
  trace has no new event, so no call reached the bridge.
\<close>

theorem missing_field_or_unknown_type_is_error:
  "(lacks_required_field command \<longrightarrow>
      (\<exists>msg. msg \<noteq> [] \<and> handleCommand command \<sigma> = (Inr (Error msg), \<sigma>))) \<and>
   (type command \<notin> set command_types \<longrightarrow>
      handleCommand command \<sigma> = (Inr (Error ''Unknown command''), \<sigma>))"
proof
  show "lacks_required_field command \<longrightarrow>
      (\<exists>msg. msg \<noteq> [] \<and> handleCommand command \<sigma> = (Inr (Error msg), \<sigma>))"
    by (auto simp: lacks_required_field_def handleCommand_def handle_set_color_def
        handle_flash_def handle_set_brightness_def handle_set_effect_def
        handle_set_temperature_def handle_activate_scene_def handle_set_group_state_def
        handle_disco_def handle_turn_off_def truthy_str_def truthy_num_def ret_apply)
next
  show "type command \<notin> set command_types \<longrightarrow>
      handleCommand command \<sigma> = (Inr (Error ''Unknown command''), \<sigma>)"
    by (simp add: command_types_def handleCommand_def ret_apply)
qed

theorem missing_field_or_unknown_type_is_error_witness:
  "lacks_required_field ((command0 ''set_brightness'')\<lparr>lightId := Some ''1''\<rparr>) \<and>
   handleCommand ((command0 ''set_brightness'')\<lparr>lightId := Some ''1''\<rparr>) sys0 =
     (Inr (Error ''Missing lightId or brightness''), sys0) \<and>
   ''blink'' \<notin> set command_types \<and>
   handleCommand (command0 ''blink'') sys0 = (Inr (Error ''Unknown command''), sys0)"
proof -
  let ?c = "(command0 ''set_brightness'')\<lparr>lightId := Some ''1''\<rparr>"
  have l: "lacks_required_field ?c"
    by (simp add: lacks_required_field_def command0_def)
  have u: "type (command0 ''blink'') \<notin> set command_types"
    by (simp add: command_types_def command0_def)
  from l missing_field_or_unknown_type_is_error [of ?c sys0]
  obtain msg where "handleCommand ?c sys0 = (Inr (Error msg), sys0)"
    by blast
  moreover have "fst (handleCommand ?c sys0) = Inr (Error ''Missing lightId or brightness'')"
    by (simp add: handleCommand_def handle_set_brightness_def command0_def ret_apply truthy_str_def)
  ultimately have 1: "handleCommand ?c sys0 = (Inr (Error ''Missing lightId or brightness''), sys0)"
    by simp
  from u missing_field_or_unknown_type_is_error [of "command0 ''blink''" sys0]
  have 2: "handleCommand (command0 ''blink'') sys0 = (Inr (Error ''Unknown command''), sys0)"
    by blast
  from u have u': "''blink'' \<notin> set command_types" by (simp add: command0_def)
  from l 1 u' 2 show ?thesis by blast
qed

section \<open>Failures of one message\<close>

lemma handleCommand_socket_events:
  "socket_events (trace (snd (handleCommand command \<sigma>))) = socket_events (trace \<sigma>)"
proof -
  have "upholds same_socket_events (handleCommand command)"
    by (rule upholds_handleCommand)
      (simp_all add: reflp_def transp_def same_socket_events_def socket_events_def)
  then show ?thesis
    unfolding upholds_def same_socket_events_def by blast
qed

lemma message_or_cases:
  assumes "dflt \<noteq> []"
  shows "(\<exists>m. m \<noteq> [] \<and> message_or e dflt = Inr m) \<or>
         (e = JsNullish \<and> message_or e dflt = Inl (type_error ''null'' ''message''))"
  using assms by (cases e) auto

lemma on_message_after_throw:
  assumes "m \<sigma> = (Inl e, \<sigma>h)"
  shows "\<exists>msg. msg \<noteq> [] \<and>
     try_catch
       (try_catch m
          (\<lambda>error. bnd (lift (message_or error ''Invalid command format'')) (\<lambda>m.
                 socket_write socket (Error m))))
       (\<lambda>error. socket_write socket (Error ''Internal server error'')) \<sigma> =
       (Inr (), \<sigma>h\<lparr>trace := trace \<sigma>h @ [SocketWrite socket (Error msg)]\<rparr>)"
proof -
  from message_or_cases [of "''Invalid command format''" e]
  consider (msg) m' where "m' \<noteq> []" "message_or e ''Invalid command format'' = Inr m'"
    | (null) "message_or e ''Invalid command format'' = Inl (type_error ''null'' ''message'')"
    by auto
  then show ?thesis
  proof cases
    case msg
    with assms show ?thesis
      by (auto simp: act_apply socket_write_def emit_def)
  next
    case null
    with assms have "try_catch
       (try_catch m
          (\<lambda>error. bnd (lift (message_or error ''Invalid command format'')) (\<lambda>m.
                 socket_write socket (Error m))))
       (\<lambda>error. socket_write socket (Error ''Internal server error'')) \<sigma> =
       (Inr (), \<sigma>h\<lparr>trace := trace \<sigma>h @ [SocketWrite socket (Error ''Internal server error'')]\<rparr>)"
      by (simp add: act_apply socket_write_def emit_def)
    then show ?thesis by blast
  qed
qed

text \<open>
  C7. When decoding a message throws, or the decoded command makes \<open>handleCommand\<close> throw,
  the handler of the message with the \<open>catch\<close> attached by the data handler returns
  normally, and what it does to sockets is exactly one write, on the socket of the message,
  of an error response with a non-empty text. In particular it ends no socket.
\<close>

theorem failed_message_gets_one_error_response:
  assumes "JSON_parse message = Inl e \<or>
           (\<exists>command. JSON_parse message = Inr command \<and> fst (handleCommand command \<sigma>) = Inl e)"
  shows "fst (on_message JSON_parse message socket \<sigma>) = Inr () \<and>
         (\<exists>msg. msg \<noteq> [] \<and>
            socket_events (trace (snd (on_message JSON_parse message socket \<sigma>))) =
              socket_events (trace \<sigma>) @ [SocketWrite socket (Error msg)])"
proof -
  let ?body = "bnd (lift (JSON_parse message)) (\<lambda>command.
        bnd (handleCommand command) (\<lambda>response. socket_write socket response))"
  have "\<exists>\<sigma>h. ?body \<sigma> = (Inl e, \<sigma>h) \<and> socket_events (trace \<sigma>h) = socket_events (trace \<sigma>)"
    using assms
  proof
    assume "JSON_parse message = Inl e"
    then have "?body \<sigma> = (Inl e, \<sigma>)" by (simp add: act_apply)
    then show ?thesis by blast
  next
    assume "\<exists>command. JSON_parse message = Inr command \<and> fst (handleCommand command \<sigma>) = Inl e"
    then obtain command where p: "JSON_parse message = Inr command"
      and h: "fst (handleCommand command \<sigma>) = Inl e" by blast
    obtain \<sigma>h where hc: "handleCommand command \<sigma> = (Inl e, \<sigma>h)"
      using h by (cases "handleCommand command \<sigma>") simp
    from handleCommand_socket_events [of command \<sigma>] hc
    have "socket_events (trace \<sigma>h) = socket_events (trace \<sigma>)" by simp
    moreover from p hc have "?body \<sigma> = (Inl e, \<sigma>h)" by (simp add: act_apply)
    ultimately show ?thesis by blast
  qed
  then obtain \<sigma>h where b: "?body \<sigma> = (Inl e, \<sigma>h)"
    and s: "socket_events (trace \<sigma>h) = socket_events (trace \<sigma>)" by blast
  from on_message_after_throw [of ?body \<sigma> e \<sigma>h socket, OF b]
  obtain msg where ne: "msg \<noteq> []"
    and om: "on_message JSON_parse message socket \<sigma> =
       (Inr (), \<sigma>h\<lparr>trace := trace \<sigma>h @ [SocketWrite socket (Error msg)]\<rparr>)"
    unfolding on_message_def handleMessage_def by blast
  from om s have "socket_events (trace (snd (on_message JSON_parse message socket \<sigma>))) =
              socket_events (trace \<sigma>) @ [SocketWrite socket (Error msg)]"
    by (simp add: socket_events_def)
  with ne om show ?thesis by auto
qed

theorem failed_message_gets_one_error_response_witness:
  "parse0 ''oops'' = Inl (JsError ''Unexpected token'') \<and>
   fst (on_message parse0 ''oops'' 7 sys0) = Inr () \<and>
   (\<exists>msg. msg \<noteq> [] \<and>
      socket_events (trace (snd (on_message parse0 ''oops'' 7 sys0))) =
        socket_events (trace sys0) @ [SocketWrite 7 (Error msg)]) \<and>
   trace (snd (on_message parse0 ''oops'' 7 sys0)) = [SocketWrite 7 (Error ''Unexpected token'')]"
proof -
  have h: "parse0 ''oops'' = Inl (JsError ''Unexpected token'')"
    by (simp add: parse0_def)
  have t: "trace (snd (on_message parse0 ''oops'' 7 sys0)) =
      [SocketWrite 7 (Error ''Unexpected token'')]"
    by (simp add: on_message_def handleMessage_def act_apply h socket_write_def emit_def sys0_def)
  from failed_message_gets_one_error_response
    [of parse0 "''oops''" "JsError ''Unexpected token''" sys0 7, OF disjI1 [OF h]] h t
  show ?thesis by blast
qed

section \<open>Brightness\<close>

lemma js_round_brightness: "js_round (of_int b / 100 * 254) = (127 * b + 25) div 50"
proof -
  have "(of_int b :: rat) / 100 * 254 + 1 / 2 = of_int (127 * b + 25) / of_int 50"
    by (simp add: field_simps)
  then show ?thesis
    unfolding js_round_def by (simp only: floor_divide_of_int_eq)
qed

lemma brightness_range:
  assumes "0 \<le> b" and "b \<le> 100"
  shows "0 \<le> js_round (of_int b / 100 * 254) \<and> js_round (of_int b / 100 * 254) \<le> 254"
proof -
  from assms(1) have "0 \<le> (127 * b + 25) div 50"
    by (simp add: pos_imp_zdiv_nonneg_iff)
  moreover from assms(2) have "127 * b + 25 \<le> 12725" by simp
  then have "(127 * b + 25) div 50 \<le> 12725 div 50" by (rule zdiv_mono1) simp
  then have "(127 * b + 25) div 50 \<le> 254" by simp
  ultimately show ?thesis unfolding js_round_brightness by simp
qed

lemma js_round_temperature:
  assumes "t \<noteq> 0"
  shows "js_round (1000000 / of_int t) = (2000000 + t) div (2 * t)"
proof -
  from assms have "(1000000 :: rat) / of_int t + 1 / 2 = of_int (2000000 + t) / of_int (2 * t)"
    by (simp add: field_simps)
  then show ?thesis
    unfolding js_round_def by (simp only: floor_divide_of_int_eq)
qed

lemma setLightState_apply:
  assumes "bridge (hue \<sigma>) = Some B"
  shows "setLightState lid st \<sigma> =
     (fst (lights_setLightState B lid st (world \<sigma>)),
      \<sigma>\<lparr>world := snd (lights_setLightState B lid st (world \<sigma>)),
        trace := trace \<sigma> @ [BridgeCall (SetLightState lid st)]\<rparr>)"
  using assms
  by (simp add: setLightState_def state_bridge_def invoke_def bnd_apply split: prod.split)

lemma catch_as_no_events: "trace (snd (catch_as dflt e \<sigma>)) = trace \<sigma>"
  by (cases e) (simp_all add: catch_as_def act_apply)

lemma single_call_trace:
  assumes "bridge (hue \<sigma>) = Some B"
  shows "trace (snd (try_catch (bnd (setLightState lid st) (\<lambda>_. ret Success)) (catch_as dflt) \<sigma>)) =
     trace \<sigma> @ [BridgeCall (SetLightState lid st)]"
proof -
  obtain r w' where call: "lights_setLightState B lid st (world \<sigma>) = (r, w')"
    by (cases "lights_setLightState B lid st (world \<sigma>)")
  show ?thesis
    by (cases r) (simp_all add: act_apply setLightState_apply [OF assms] call catch_as_no_events)
qed

lemma single_call_result:
  assumes "bridge (hue \<sigma>) = Some B"
  shows "fst (try_catch (bnd (setLightState lid st) (\<lambda>_. ret Success)) (catch_as dflt) \<sigma>) =
     (case fst (lights_setLightState B lid st (world \<sigma>)) of
        Inr u \<Rightarrow> Inr Success
      | Inl e \<Rightarrow> (case message_or e dflt of Inl e' \<Rightarrow> Inl e' | Inr m \<Rightarrow> Inr (Error m)))"
proof -
  obtain r w' where call: "lights_setLightState B lid st (world \<sigma>) = (r, w')"
    by (cases "lights_setLightState B lid st (world \<sigma>)")
  show ?thesis
    by (cases r)
      (simp_all add: act_apply setLightState_apply [OF assms] call catch_as_def split: sum.split)
qed

text \<open>
  C4. A \<open>set_brightness\<close> command with a light identifier (a non-empty string) and an
  integer brightness \<open>b\<close> between 0 and 100, on a server with a bridge session, makes
  exactly one call to the bridge: \<open>setLightState\<close> of that light with \<open>on: true\<close> and
  \<open>bri = round(b / 100 * 254)\<close>, which lies between 0 and 254. When that call returns
  normally the response is the success response.
\<close>

theorem set_brightness_scales_to_254:
  assumes "type command = ''set_brightness''"
    and "lightId command = Some lid" and "lid \<noteq> []"
    and "brightness command = Some b" and "0 \<le> b" and "b \<le> 100"
    and "bridge (hue \<sigma>) = Some B"
  shows "\<exists>bri. bri = js_round (of_int b / 100 * 254) \<and> 0 \<le> bri \<and> bri \<le> 254 \<and>
     trace (snd (handleCommand command \<sigma>)) =
       trace \<sigma> @ [BridgeCall (SetLightState lid [(''on'', JBool True), (''bri'', JNum bri)])] \<and>
     (fst (lights_setLightState B lid [(''on'', JBool True), (''bri'', JNum bri)] (world \<sigma>)) = Inr ()
        \<longrightarrow> fst (handleCommand command \<sigma>) = Inr Success)"
proof -
  define bri where "bri = js_round (of_int b / 100 * 254)"
  let ?st = "[(''on'', JBool True), (''bri'', JNum bri)]"
  have range: "0 \<le> bri \<and> bri \<le> 254"
    unfolding bri_def using assms(5,6) by (rule brightness_range)
  have "handle_set_brightness command =
      try_catch (bnd (setLightState lid ?st) (\<lambda>_. ret Success))
        (catch_as ''Failed to set brightness'')"
    unfolding handle_set_brightness_def Let_def bri_def
    using assms(2-4) by (simp only: truthy_str_def option.case option.sel option.distinct simp_thms if_False)
  with assms(1) have hc: "handleCommand command =
      try_catch (bnd (setLightState lid ?st) (\<lambda>_. ret Success))
        (catch_as ''Failed to set brightness'')"
    by (simp add: handleCommand_def)
  have tr: "trace (snd (handleCommand command \<sigma>)) =
       trace \<sigma> @ [BridgeCall (SetLightState lid ?st)]"
    unfolding hc by (rule single_call_trace [OF assms(7)])
  have ok: "fst (lights_setLightState B lid ?st (world \<sigma>)) = Inr ()
        \<longrightarrow> fst (handleCommand command \<sigma>) = Inr Success"
    unfolding hc single_call_result [OF assms(7)] by simp
  from range tr ok bri_def show ?thesis by blast
qed

theorem set_brightness_scales_to_254_witness:
  "type ((command0 ''set_brightness'')\<lparr>lightId := Some ''1'', brightness := Some 50\<rparr>) = ''set_brightness'' \<and>
   (0::int) \<le> 50 \<and> (50::int) \<le> 100 \<and> bridge (hue sys0) = Some bridge0 \<and>
   fst (handleCommand ((command0 ''set_brightness'')\<lparr>lightId := Some ''1'', brightness := Some 50\<rparr>) sys0) =
     Inr Success \<and>
   trace (snd (handleCommand ((command0 ''set_brightness'')\<lparr>lightId := Some ''1'', brightness := Some 50\<rparr>) sys0)) =
     [BridgeCall (SetLightState ''1'' [(''on'', JBool True), (''bri'', JNum 127)])]"
proof -
  let ?c = "(command0 ''set_brightness'')\<lparr>lightId := Some ''1'', brightness := Some 50\<rparr>"
  have c: "type ?c = ''set_brightness''" "lightId ?c = Some ''1''" "''1'' \<noteq> []"
    "brightness ?c = Some 50" "(0::int) \<le> 50" "(50::int) \<le> 100"
    by (simp_all add: command0_def)
  have b: "bridge (hue sys0) = Some bridge0"
    by (simp add: sys0_def)
  from set_brightness_scales_to_254 [OF c b]
  obtain bri where bri: "bri = js_round (of_int 50 / 100 * 254)"
    and tr: "trace (snd (handleCommand ?c sys0)) =
       trace sys0 @ [BridgeCall (SetLightState ''1'' [(''on'', JBool True), (''bri'', JNum bri)])]"
    and ok: "fst (lights_setLightState bridge0 ''1'' [(''on'', JBool True), (''bri'', JNum bri)] (world sys0)) = Inr ()
        \<longrightarrow> fst (handleCommand ?c sys0) = Inr Success"
    by blast
  have v: "bri = 127" unfolding bri js_round_brightness by simp
  from ok have r: "fst (handleCommand ?c sys0) = Inr Success"
    by (simp add: bridge0_def)
  from tr v have t: "trace (snd (handleCommand ?c sys0)) =
      [BridgeCall (SetLightState ''1'' [(''on'', JBool True), (''bri'', JNum 127)])]"
    by (simp add: sys0_def)
  from c b r t show ?thesis
    by simp
qed

section \<open>The flash sequence and the defaults\<close>

lemma bridge_calls_append: "bridge_calls (xs @ ys) = bridge_calls xs @ bridge_calls ys"
  by (induction xs rule: bridge_calls.induct) simp_all

lemma bridge_calls_cycles:
  "bridge_calls (concat (replicate k (flash_cycle_events lid c))) =
     concat (replicate k
       [SetLightState lid [(''on'', JBool True), (''bri'', JNum 254), (''rgb'', JRgb c)],
        SetLightState lid [(''on'', JBool False)]])"
  by (induction k) (simp_all add: bridge_calls_append, simp add: flash_cycle_events_def)

lemma flash_cycle_accepting:
  assumes "bridge (hue \<sigma>) = Some B"
    and "\<And>l st w. fst (lights_setLightState B l st w) = Inr ()"
  shows "\<exists>\<sigma>'. flash_cycle lid c \<sigma> = (Inr (), \<sigma>') \<and> hue \<sigma>' = hue \<sigma> \<and>
     trace \<sigma>' = trace \<sigma> @ flash_cycle_events lid c"
  using assms
  by (simp add: flash_cycle_def bnd_apply setLightState_apply [where B = B] wait_def
      on_bri_rgb_def flash_cycle_events_def)

lemma flash_loop_accepting:
  assumes "\<And>l st w. fst (lights_setLightState B l st w) = Inr ()"
  shows "bridge (hue \<sigma>) = Some B \<Longrightarrow>
     \<exists>\<sigma>'. flash_loop lid c i n \<sigma> = (Inr (), \<sigma>') \<and> hue \<sigma>' = hue \<sigma> \<and>
       trace \<sigma>' = trace \<sigma> @ concat (replicate (nat (n - i)) (flash_cycle_events lid c))"
proof (induction lid c i n \<sigma> rule: flash_loop.induct)
  case (1 lid c i n \<sigma>)
  show ?case
  proof (cases "i < n")
    case False
    then show ?thesis by simp
  next
    case True
    from flash_cycle_accepting [OF "1.prems" assms, of lid c]
    obtain \<sigma>1 where fc: "flash_cycle lid c \<sigma> = (Inr (), \<sigma>1)" and h1: "hue \<sigma>1 = hue \<sigma>"
      and t1: "trace \<sigma>1 = trace \<sigma> @ flash_cycle_events lid c"
      by blast
    from h1 "1.prems" have b1: "bridge (hue \<sigma>1) = Some B" by simp
    from "1.IH" [OF True fc [symmetric] refl b1]
    obtain \<sigma>' where fl: "flash_loop lid c (i + 1) n \<sigma>1 = (Inr (), \<sigma>')"
      and h: "hue \<sigma>' = hue \<sigma>1"
      and t: "trace \<sigma>' = trace \<sigma>1 @
                concat (replicate (nat (n - (i + 1))) (flash_cycle_events lid c))"
      by blast
    from True have k: "nat (n - i) = Suc (nat (n - (i + 1)))" by simp
    from True fc fl have "flash_loop lid c i n \<sigma> = (Inr (), \<sigma>')"
      by (subst flash_loop.simps) simp
    moreover from h h1 have "hue \<sigma>' = hue \<sigma>" by simp
    moreover from t t1 have "trace \<sigma>' = trace \<sigma> @
        concat (replicate (nat (n - i)) (flash_cycle_events lid c))"
      unfolding k by simp
    ultimately show ?thesis by blast
  qed
qed

lemma handle_flash_accepting:
  assumes "lightId command = Some lid" and "lid \<noteq> []" and "color command = Some c"
    and "bridge (hue \<sigma>) = Some B"
    and "\<And>l st w. fst (lights_setLightState B l st w) = Inr ()"
  shows "fst (handle_flash command \<sigma>) = Inr Success \<and>
     trace (snd (handle_flash command \<sigma>)) =
       trace \<sigma> @ concat (replicate (nat (or_default (times_f command) 3)) (flash_cycle_events lid c))
         @ [BridgeCall (SetLightState lid [(''on'', JBool True), (''bri'', JNum 254), (''rgb'', JRgb c)])]"
proof -
  let ?n = "or_default (times_f command) 3"
  from flash_loop_accepting [OF assms(5) assms(4), of lid c 0 ?n]
  obtain \<sigma>1 where fl: "flash_loop lid c 0 ?n \<sigma> = (Inr (), \<sigma>1)"
    and h1: "hue \<sigma>1 = hue \<sigma>"
    and t1: "trace \<sigma>1 = trace \<sigma> @ concat (replicate (nat ?n) (flash_cycle_events lid c))"
    by auto
  from h1 assms(4) have b1: "bridge (hue \<sigma>1) = Some B" by simp
  have "handle_flash command \<sigma> =
      try_catch (bnd (flash_loop lid c 0 ?n) (\<lambda>_.
                 bnd (setLightState lid (on_bri_rgb c)) (\<lambda>_. ret Success)))
        (catch_as ''Failed to flash light'') \<sigma>"
    using assms(1-3) by (simp add: handle_flash_def truthy_str_def Let_def)
  also have "\<dots> = (Inr Success,
      \<sigma>1\<lparr>world := snd (lights_setLightState B lid (on_bri_rgb c) (world \<sigma>1)),
         trace := trace \<sigma>1 @ [BridgeCall (SetLightState lid (on_bri_rgb c))]\<rparr>)"
    by (simp add: act_apply fl setLightState_apply [OF b1] assms(5) del: flash_loop.simps)
  finally show ?thesis
    by (simp add: t1 on_bri_rgb_def)
qed

lemma length_concat_replicate_pair: "length (concat (replicate k [a, b])) = 2 * k"
  by (induction k) simp_all

lemma on_message_after_return:
  assumes "JSON_parse message = Inr command"
    and "fst (handleCommand command \<sigma>) = Inr response"
  shows "on_message JSON_parse message socket \<sigma> =
     (Inr (), (snd (handleCommand command \<sigma>))
        \<lparr>trace := trace (snd (handleCommand command \<sigma>)) @ [SocketWrite socket response]\<rparr>)"
proof -
  obtain \<sigma>h where hc: "handleCommand command \<sigma> = (Inr response, \<sigma>h)"
    using assms(2) by (cases "handleCommand command \<sigma>") simp
  show ?thesis
    by (simp add: on_message_def handleMessage_def act_apply assms(1) hc socket_write_def emit_def)
qed

text \<open>
  C5. A \<open>flash\<close> command with a light identifier (a non-empty string), a colour and
  \<open>times = n\<close> for a positive integer \<open>n\<close> (or no \<open>times\<close>, and then \<open>n = 3\<close>), on a
  server whose bridge accepts every \<open>setLightState\<close> call, is answered by the success
  response, and what it does is \<open>n\<close> times: the on call with \<open>bri: 254\<close> and the colour,
  a wait of 500 ms, the call with only \<open>on: false\<close>, a wait of 500 ms; and then one more
  on call. So the bridge receives \<open>2n + 1\<close> calls, alternating, the first and the last an
  on call. The response is written to the socket after all of them.
\<close>

theorem flash_sends_on_off_cycles_then_on:
  assumes "type command = ''flash''"
    and "lightId command = Some lid" and "lid \<noteq> []" and "color command = Some c"
    and "times_f command = Some n \<and> 0 < n \<or> times_f command = None \<and> n = 3"
    and "bridge (hue \<sigma>) = Some B"
    and "\<And>l st w. fst (lights_setLightState B l st w) = Inr ()"
  shows "fst (handleCommand command \<sigma>) = Inr Success \<and>
     trace (snd (handleCommand command \<sigma>)) =
       trace \<sigma> @ concat (replicate (nat n) (flash_cycle_events lid c)) @
         [BridgeCall (SetLightState lid
            [(''on'', JBool True), (''bri'', JNum 254), (''rgb'', JRgb c)])] \<and>
     bridge_calls (trace (snd (handleCommand command \<sigma>))) =
       bridge_calls (trace \<sigma>) @
         concat (replicate (nat n)
           [SetLightState lid [(''on'', JBool True), (''bri'', JNum 254), (''rgb'', JRgb c)],
            SetLightState lid [(''on'', JBool False)]]) @
         [SetLightState lid [(''on'', JBool True), (''bri'', JNum 254), (''rgb'', JRgb c)]] \<and>
     length (bridge_calls (trace (snd (handleCommand command \<sigma>)))) =
       length (bridge_calls (trace \<sigma>)) + (2 * nat n + 1) \<and>
     (JSON_parse message = Inr command \<longrightarrow>
        trace (snd (on_message JSON_parse message socket \<sigma>)) =
          trace (snd (handleCommand command \<sigma>)) @ [SocketWrite socket Success])"
proof -
  from assms(5) have n: "or_default (times_f command) 3 = n"
    by (auto simp: or_default_def)
  from assms(1) have hc: "handleCommand command = handle_flash command"
    by (simp add: handleCommand_def)
  from handle_flash_accepting [OF assms(2,3,4,6,7)]
  have r: "fst (handleCommand command \<sigma>) = Inr Success"
    and t: "trace (snd (handleCommand command \<sigma>)) =
       trace \<sigma> @ concat (replicate (nat n) (flash_cycle_events lid c)) @
         [BridgeCall (SetLightState lid
            [(''on'', JBool True), (''bri'', JNum 254), (''rgb'', JRgb c)])]"
    unfolding hc n by simp_all
  have b: "bridge_calls (trace (snd (handleCommand command \<sigma>))) =
       bridge_calls (trace \<sigma>) @
         concat (replicate (nat n)
           [SetLightState lid [(''on'', JBool True), (''bri'', JNum 254), (''rgb'', JRgb c)],
            SetLightState lid [(''on'', JBool False)]]) @
         [SetLightState lid [(''on'', JBool True), (''bri'', JNum 254), (''rgb'', JRgb c)]]"
    unfolding t by (simp add: bridge_calls_append bridge_calls_cycles)
  have l: "length (bridge_calls (trace (snd (handleCommand command \<sigma>)))) =
       length (bridge_calls (trace \<sigma>)) + (2 * nat n + 1)"
    unfolding b by (simp add: length_concat_replicate_pair)
  have w: "JSON_parse message = Inr command \<longrightarrow>
        trace (snd (on_message JSON_parse message socket \<sigma>)) =
          trace (snd (handleCommand command \<sigma>)) @ [SocketWrite socket Success]"
    using on_message_after_return [OF _ r, of JSON_parse message socket] by simp
  from r t b l w show ?thesis by blast
qed

theorem flash_sends_on_off_cycles_then_on_witness:
  "bridge_calls (trace (snd (on_message parse_flash ''flash 2'' 5 sys0))) =
     [SetLightState ''2'' [(''on'', JBool True), (''bri'', JNum 254), (''rgb'', JRgb (0, 255, 0))],
      SetLightState ''2'' [(''on'', JBool False)],
      SetLightState ''2'' [(''on'', JBool True), (''bri'', JNum 254), (''rgb'', JRgb (0, 255, 0))],
      SetLightState ''2'' [(''on'', JBool False)],
      SetLightState ''2'' [(''on'', JBool True), (''bri'', JNum 254), (''rgb'', JRgb (0, 255, 0))]] \<and>
   last (trace (snd (on_message parse_flash ''flash 2'' 5 sys0))) = SocketWrite 5 Success"
proof -
  let ?c = "(command0 ''flash'')\<lparr>lightId := Some ''2'', color := Some (0, 255, 0),
                                         times_f := Some 2\<rparr>"
  have c: "type ?c = ''flash''" "lightId ?c = Some ''2''" "''2'' \<noteq> []"
    "color ?c = Some (0, 255, 0)"
    "times_f ?c = Some 2 \<and> 0 < (2::int) \<or> times_f ?c = None \<and> (2::int) = 3"
    by (simp_all add: command0_def)
  have b: "bridge (hue sys0) = Some bridge0"
    by (simp add: sys0_def)
  have a: "\<And>l st w. fst (lights_setLightState bridge0 l st w) = Inr ()"
    by (simp add: bridge0_def)
  have p: "parse_flash ''flash 2'' = Inr ?c"
    by (simp add: parse_flash_def)
  have two: "nat 2 = Suc (Suc 0)" by simp
  from flash_sends_on_off_cycles_then_on [OF c b a, of parse_flash "''flash 2''" 5] p
  have calls: "bridge_calls (trace (snd (handleCommand ?c sys0))) =
      bridge_calls (trace sys0) @
         concat (replicate (nat 2)
           [SetLightState ''2'' [(''on'', JBool True), (''bri'', JNum 254), (''rgb'', JRgb (0, 255, 0))],
            SetLightState ''2'' [(''on'', JBool False)]]) @
         [SetLightState ''2'' [(''on'', JBool True), (''bri'', JNum 254), (''rgb'', JRgb (0, 255, 0))]]"
    and wr: "trace (snd (on_message parse_flash ''flash 2'' 5 sys0)) =
          trace (snd (handleCommand ?c sys0)) @ [SocketWrite 5 Success]"
    by blast+
  from calls have "bridge_calls (trace (snd (handleCommand ?c sys0))) =
     [SetLightState ''2'' [(''on'', JBool True), (''bri'', JNum 254), (''rgb'', JRgb (0, 255, 0))],
      SetLightState ''2'' [(''on'', JBool False)],
      SetLightState ''2'' [(''on'', JBool True), (''bri'', JNum 254), (''rgb'', JRgb (0, 255, 0))],
      SetLightState ''2'' [(''on'', JBool False)],
      SetLightState ''2'' [(''on'', JBool True), (''bri'', JNum 254), (''rgb'', JRgb (0, 255, 0))]]"
    unfolding two by (simp add: sys0_def)
  with wr show ?thesis
    by (simp add: bridge_calls_append)
qed

lemma handle_disco_registers:
  assumes "lightId command = Some lid" and "lid \<noteq> []"
  shows "handle_disco command \<sigma> =
     (Inr Success,
      \<sigma>\<lparr>timers := timers \<sigma> @
         [\<lparr>job_lightId = Some lid, job_duration = or_default (duration command) 30,
           job_speed = or_default (speed command) 500, colorIndex = 0,
           startTime = clock \<sigma>, active = True\<rparr>]\<rparr>)"
  using assms
  by (simp add: handle_disco_def truthy_str_def Let_def act_apply date_now_def setInterval_def)

lemma handleCommand_ignores_zero_times:
  "handleCommand (command\<lparr>times_f := Some 0\<rparr>) = handleCommand (command\<lparr>times_f := None\<rparr>)"
  by (simp add: handleCommand_def handle_set_color_def handle_flash_def
      handle_set_brightness_def handle_set_effect_def handle_set_temperature_def
      handle_activate_scene_def handle_set_group_state_def group_state_object_def
      handle_disco_def handle_turn_off_def or_default_def cong: if_cong)

lemma handleCommand_ignores_zero_duration:
  "handleCommand (command\<lparr>duration := Some 0\<rparr>) = handleCommand (command\<lparr>duration := None\<rparr>)"
  by (simp add: handleCommand_def handle_set_color_def handle_flash_def
      handle_set_brightness_def handle_set_effect_def handle_set_temperature_def
      handle_activate_scene_def handle_set_group_state_def group_state_object_def
      handle_disco_def handle_turn_off_def or_default_def cong: if_cong)

lemma handleCommand_ignores_zero_speed:
  "handleCommand (command\<lparr>speed := Some 0\<rparr>) = handleCommand (command\<lparr>speed := None\<rparr>)"
  by (simp add: handleCommand_def handle_set_color_def handle_flash_def
      handle_set_brightness_def handle_set_effect_def handle_set_temperature_def
      handle_activate_scene_def handle_set_group_state_def group_state_object_def
      handle_disco_def handle_turn_off_def or_default_def cong: if_cong)

text \<open>
  C10. The defaults are applied by \<open>||\<close>, so an explicit zero is treated as an absent
  field. A \<open>flash\<close> command with \<open>times = 0\<close> (light identifier and colour present, bridge
  accepting) makes seven \<open>setLightState\<close> calls, three cycles and the final on call. A
  \<open>disco\<close> command starts a timer whose duration is 30 when \<open>duration\<close> is 0 or absent
  and whose period is 500 when \<open>speed\<close> is 0 or absent. For every command, replacing an
  absent \<open>times\<close>, \<open>duration\<close> or \<open>speed\<close> by 0 does not change what \<open>handleCommand\<close>
  does.
\<close>

theorem explicit_zero_is_defaulted:
  "(type command = ''flash'' \<and> lightId command = Some lid \<and> lid \<noteq> [] \<and>
    color command = Some c \<and> times_f command = Some 0 \<and> bridge (hue \<sigma>) = Some B \<and>
    (\<forall>l st w. fst (lights_setLightState B l st w) = Inr ()) \<longrightarrow>
      fst (handleCommand command \<sigma>) = Inr Success \<and>
      bridge_calls (trace (snd (handleCommand command \<sigma>))) =
        bridge_calls (trace \<sigma>) @
        [SetLightState lid [(''on'', JBool True), (''bri'', JNum 254), (''rgb'', JRgb c)],
         SetLightState lid [(''on'', JBool False)],
         SetLightState lid [(''on'', JBool True), (''bri'', JNum 254), (''rgb'', JRgb c)],
         SetLightState lid [(''on'', JBool False)],
         SetLightState lid [(''on'', JBool True), (''bri'', JNum 254), (''rgb'', JRgb c)],
         SetLightState lid [(''on'', JBool False)],
         SetLightState lid [(''on'', JBool True), (''bri'', JNum 254), (''rgb'', JRgb c)]]) \<and>
   (type command = ''disco'' \<and> lightId command = Some lid \<and> lid \<noteq> [] \<longrightarrow>
      (\<exists>job. handleCommand command \<sigma> = (Inr Success, \<sigma>\<lparr>timers := timers \<sigma> @ [job]\<rparr>) \<and>
         (duration command = Some 0 \<or> duration command = None \<longrightarrow> job_duration job = 30) \<and>
         (speed command = Some 0 \<or> speed command = None \<longrightarrow> job_speed job = 500))) \<and>
   handleCommand (command\<lparr>times_f := Some 0\<rparr>) = handleCommand (command\<lparr>times_f := None\<rparr>) \<and>
   handleCommand (command\<lparr>duration := Some 0\<rparr>) = handleCommand (command\<lparr>duration := None\<rparr>) \<and>
   handleCommand (command\<lparr>speed := Some 0\<rparr>) = handleCommand (command\<lparr>speed := None\<rparr>)"
proof (intro conjI impI)
  assume a: "type command = ''flash'' \<and> lightId command = Some lid \<and> lid \<noteq> [] \<and>
    color command = Some c \<and> times_f command = Some 0 \<and> bridge (hue \<sigma>) = Some B \<and>
    (\<forall>l st w. fst (lights_setLightState B l st w) = Inr ())"
  then have hc: "handleCommand command = handle_flash command"
    by (simp add: handleCommand_def)
  from a have n: "or_default (times_f command) 3 = 3"
    by (simp add: or_default_def)
  have three: "nat 3 = Suc (Suc (Suc 0))" by simp
  from a have acc: "\<And>l st w. fst (lights_setLightState B l st w) = Inr ()" by blast
  from a handle_flash_accepting [of command lid c \<sigma> B, OF _ _ _ _ acc]
  have r: "fst (handle_flash command \<sigma>) = Inr Success"
    and t: "trace (snd (handle_flash command \<sigma>)) =
       trace \<sigma> @ concat (replicate (nat 3) (flash_cycle_events lid c)) @
         [BridgeCall (SetLightState lid
            [(''on'', JBool True), (''bri'', JNum 254), (''rgb'', JRgb c)])]"
    unfolding n by blast+
  from r show "fst (handleCommand command \<sigma>) = Inr Success"
    unfolding hc .
  show "bridge_calls (trace (snd (handleCommand command \<sigma>))) =
        bridge_calls (trace \<sigma>) @
        [SetLightState lid [(''on'', JBool True), (''bri'', JNum 254), (''rgb'', JRgb c)],
         SetLightState lid [(''on'', JBool False)],
         SetLightState lid [(''on'', JBool True), (''bri'', JNum 254), (''rgb'', JRgb c)],
         SetLightState lid [(''on'', JBool False)],
         SetLightState lid [(''on'', JBool True), (''bri'', JNum 254), (''rgb'', JRgb c)],
         SetLightState lid [(''on'', JBool False)],
         SetLightState lid [(''on'', JBool True), (''bri'', JNum 254), (''rgb'', JRgb c)]]"
    unfolding hc t three
    by (simp add: bridge_calls_append flash_cycle_events_def)
next
  assume a: "type command = ''disco'' \<and> lightId command = Some lid \<and> lid \<noteq> []"
  then have hc: "handleCommand command = handle_disco command"
    by (simp add: handleCommand_def)
  let ?job = "\<lparr>job_lightId = Some lid, job_duration = or_default (duration command) 30,
           job_speed = or_default (speed command) 500, colorIndex = 0,
           startTime = clock \<sigma>, active = True\<rparr>"
  from a handle_disco_registers [of command lid \<sigma>]
  have 1: "handleCommand command \<sigma> = (Inr Success, \<sigma>\<lparr>timers := timers \<sigma> @ [?job]\<rparr>)"
    unfolding hc by blast
  have 2: "duration command = Some 0 \<or> duration command = None \<longrightarrow> job_duration ?job = 30"
    by (auto simp: or_default_def)
  have 3: "speed command = Some 0 \<or> speed command = None \<longrightarrow> job_speed ?job = 500"
    by (auto simp: or_default_def)
  show "\<exists>job. handleCommand command \<sigma> = (Inr Success, \<sigma>\<lparr>timers := timers \<sigma> @ [job]\<rparr>) \<and>
         (duration command = Some 0 \<or> duration command = None \<longrightarrow> job_duration job = 30) \<and>
         (speed command = Some 0 \<or> speed command = None \<longrightarrow> job_speed job = 500)"
    by (rule exI [of _ ?job]) (rule conjI [OF 1 conjI [OF 2 3]])
next
  show "handleCommand (command\<lparr>times_f := Some 0\<rparr>) = handleCommand (command\<lparr>times_f := None\<rparr>)"
    by (rule handleCommand_ignores_zero_times)
next
  show "handleCommand (command\<lparr>duration := Some 0\<rparr>) = handleCommand (command\<lparr>duration := None\<rparr>)"
    by (rule handleCommand_ignores_zero_duration)
next
  show "handleCommand (command\<lparr>speed := Some 0\<rparr>) = handleCommand (command\<lparr>speed := None\<rparr>)"
    by (rule handleCommand_ignores_zero_speed)
qed

theorem explicit_zero_is_defaulted_witness:
  "length (bridge_calls (trace (snd (handleCommand
      ((command0 ''flash'')\<lparr>lightId := Some ''2'', color := Some (0, 255, 0), times_f := Some 0\<rparr>)
      sys0)))) = 7 \<and>
   (\<exists>job. handleCommand
       ((command0 ''disco'')\<lparr>lightId := Some ''3'', duration := Some 0, speed := Some 0\<rparr>) sys0 =
         (Inr Success, sys0\<lparr>timers := timers sys0 @ [job]\<rparr>) \<and>
       job_duration job = 30 \<and> job_speed job = 500)"
proof -
  let ?f = "(command0 ''flash'')\<lparr>lightId := Some ''2'', color := Some (0, 255, 0), times_f := Some 0\<rparr>"
  let ?d = "(command0 ''disco'')\<lparr>lightId := Some ''3'', duration := Some 0, speed := Some 0\<rparr>"
  have f: "type ?f = ''flash'' \<and> lightId ?f = Some ''2'' \<and> ''2'' \<noteq> [] \<and>
    color ?f = Some (0, 255, 0) \<and> times_f ?f = Some 0 \<and> bridge (hue sys0) = Some bridge0 \<and>
    (\<forall>l st w. fst (lights_setLightState bridge0 l st w) = Inr ())"
    by (simp add: command0_def sys0_def bridge0_def)
  have d: "type ?d = ''disco'' \<and> lightId ?d = Some ''3'' \<and> ''3'' \<noteq> []"
    by (simp add: command0_def)
  have dz: "duration ?d = Some 0" "speed ?d = Some 0"
    by (simp_all add: command0_def)
  note flash_part = explicit_zero_is_defaulted
    [of ?f "''2''" "(0, 255, 0)" sys0 bridge0, THEN conjunct1, rule_format, OF f]
  note disco_part = explicit_zero_is_defaulted
    [of ?d "''3''" "(0, 0, 0)" sys0 bridge0, THEN conjunct2, THEN conjunct1, rule_format, OF d]
  from flash_part
  have "bridge_calls (trace (snd (handleCommand ?f sys0))) =
        bridge_calls (trace sys0) @
        [SetLightState ''2'' [(''on'', JBool True), (''bri'', JNum 254), (''rgb'', JRgb (0, 255, 0))],
         SetLightState ''2'' [(''on'', JBool False)],
         SetLightState ''2'' [(''on'', JBool True), (''bri'', JNum 254), (''rgb'', JRgb (0, 255, 0))],
         SetLightState ''2'' [(''on'', JBool False)],
         SetLightState ''2'' [(''on'', JBool True), (''bri'', JNum 254), (''rgb'', JRgb (0, 255, 0))],
         SetLightState ''2'' [(''on'', JBool False)],
         SetLightState ''2'' [(''on'', JBool True), (''bri'', JNum 254), (''rgb'', JRgb (0, 255, 0))]]"
    by (rule conjunct2)
  then have 1: "length (bridge_calls (trace (snd (handleCommand ?f sys0)))) = 7"
    by (simp add: sys0_def)
  from disco_part
  obtain job where j: "handleCommand ?d sys0 = (Inr Success, sys0\<lparr>timers := timers sys0 @ [job]\<rparr>)"
    and jd: "duration ?d = Some 0 \<or> duration ?d = None \<longrightarrow> job_duration job = 30"
    and js: "speed ?d = Some 0 \<or> speed ?d = None \<longrightarrow> job_speed job = 500"
    by (elim exE conjE)
  from jd js dz have v: "job_duration job = 30 \<and> job_speed job = 500"
    by simp
  from j v have 2: "\<exists>job. handleCommand ?d sys0 =
         (Inr Success, sys0\<lparr>timers := timers sys0 @ [job]\<rparr>) \<and>
       job_duration job = 30 \<and> job_speed job = 500"
    by (intro exI [of _ job] conjI) simp_all
  from 1 2 show ?thesis by (rule conjI)
qed

section \<open>The disco timer\<close>

lemma setLightState_frame:
  "hue (snd (setLightState lid st \<sigma>)) = hue \<sigma> \<and> timers (snd (setLightState lid st \<sigma>)) = timers \<sigma> \<and>
   clock (snd (setLightState lid st \<sigma>)) = clock \<sigma>"
  by (simp add: setLightState_def state_bridge_def invoke_def bnd_apply
      split: option.split prod.split sum.split)




lemma handleCommand_same_hue: "hue (snd (handleCommand command \<sigma>)) = hue \<sigma>"
proof -
  have "upholds same_hue (handleCommand command)"
    by (rule upholds_handleCommand) (simp_all add: reflp_def transp_def same_hue_def)
  then show ?thesis
    unfolding upholds_def same_hue_def by blast
qed

lemma disco_tick_same_hue: "hue (disco_tick interval \<sigma>) = hue \<sigma>"
proof -
  obtain r \<sigma>' where s: "setLightState (the (job_lightId (timers \<sigma> ! interval)))
        [(''on'', JBool True), (''bri'', JNum 254),
         (''rgb'', color_at (colorIndex (timers \<sigma> ! interval))), (''transitiontime'', JNum 0)] \<sigma>
      = (r, \<sigma>')"
    by (cases "setLightState (the (job_lightId (timers \<sigma> ! interval)))
        [(''on'', JBool True), (''bri'', JNum 254),
         (''rgb'', color_at (colorIndex (timers \<sigma> ! interval))), (''transitiontime'', JNum 0)] \<sigma>")
  from setLightState_frame [of "the (job_lightId (timers \<sigma> ! interval))" _ \<sigma>] s
  have "hue \<sigma>' = hue \<sigma>" by (metis snd_conv)
  with s show ?thesis
    by (cases r) (simp_all add: disco_tick_def Let_def)
qed




lemma step_same_hue: "hue (step input \<sigma>) = hue \<sigma>"
  by (cases input) (simp_all add: handleCommand_same_hue disco_tick_same_hue)

lemma run_same_hue: "hue (run inputs \<sigma>) = hue \<sigma>"
  unfolding run_def
  by (induction inputs arbitrary: \<sigma>) (simp_all add: step_same_hue)

text \<open>
  The cursor of a timer starts at 0 and a tick sets it to a remainder modulo the length of
  the palette, so on a running server every cursor points into the palette.
\<close>

lemma handleCommand_keeps_cursors:
  "cursors_in_palette \<sigma> \<Longrightarrow> cursors_in_palette (snd (handleCommand command \<sigma>))"
proof -
  have "upholds keeps_cursors_in_palette (handleCommand command)"
    by (rule upholds_handleCommand)
      (simp_all add: reflp_def transp_def keeps_cursors_in_palette_def cursors_in_palette_def
        colors_def)
  then show "cursors_in_palette \<sigma> \<Longrightarrow> cursors_in_palette (snd (handleCommand command \<sigma>))"
    unfolding upholds_def keeps_cursors_in_palette_def by blast
qed

lemma disco_tick_keeps_cursors:
  assumes "cursors_in_palette \<sigma>"
  shows "cursors_in_palette (disco_tick interval \<sigma>)"
proof -
  let ?call = "setLightState (the (job_lightId (timers \<sigma> ! interval)))
        [(''on'', JBool True), (''bri'', JNum 254),
         (''rgb'', color_at (colorIndex (timers \<sigma> ! interval))), (''transitiontime'', JNum 0)] \<sigma>"
  obtain r \<sigma>' where s: "?call = (r, \<sigma>')"
    by (cases ?call)
  from setLightState_frame [of "the (job_lightId (timers \<sigma> ! interval))" _ \<sigma>] s
  have t: "timers \<sigma>' = timers \<sigma>" by (metis snd_conv)
  have upd: "\<forall>job \<in> set ((timers \<sigma>)[interval := j]). colorIndex job < length colors"
    if "colorIndex j < length colors" for j
  proof
    fix job
    assume "job \<in> set ((timers \<sigma>)[interval := j])"
    then have "job = j \<or> job \<in> set (timers \<sigma>)"
      using set_update_subset_insert [of "timers \<sigma>" interval j] by auto
    with that assms show "colorIndex job < length colors"
      by (auto simp: cursors_in_palette_def)
  qed
  have m: "(k + 1) mod length colors < length colors" for k
    by (simp add: colors_def)
  show ?thesis
  proof (cases "interval < length (timers \<sigma>) \<and> active (timers \<sigma> ! interval)")
    case False
    with assms show ?thesis by (auto simp: disco_tick_def)
  next
    case True
    show ?thesis
    proof (cases r)
      case (Inl e)
      with True s t assms show ?thesis
        by (simp add: disco_tick_def Let_def cursors_in_palette_def)
    next
      case (Inr u)
      let ?j1 = "(timers \<sigma> ! interval)
                   \<lparr>colorIndex := (colorIndex (timers \<sigma> ! interval) + 1) mod length colors\<rparr>"
      have c1: "colorIndex ?j1 < length colors"
        and c2: "colorIndex (?j1\<lparr>active := False\<rparr>) < length colors"
        using m by simp_all
      from upd [OF c1] upd [OF c2] True s t Inr show ?thesis
        by (simp add: disco_tick_def Let_def cursors_in_palette_def)
    qed
  qed
qed

lemma step_keeps_cursors: "cursors_in_palette \<sigma> \<Longrightarrow> cursors_in_palette (step input \<sigma>)"
  by (cases input)
    (simp_all add: handleCommand_keeps_cursors disco_tick_keeps_cursors, 
     simp_all add: cursors_in_palette_def)

lemma run_keeps_cursors: "cursors_in_palette \<sigma> \<Longrightarrow> cursors_in_palette (run inputs \<sigma>)"
  unfolding run_def
  by (induction inputs arbitrary: \<sigma>) (simp_all add: step_keeps_cursors)



section \<open>Group state\<close>

lemma set_group_state_throws:
  assumes "group_f command = Some g" and "g \<noteq> []"
  shows "handle_set_group_state command \<sigma> =
     (Inr (Error ''Cannot read properties of undefined (reading groups)''), \<sigma>)"
proof -
  have "get_prop (group_state_object command) ''bridge'' = None"
    by (simp add: group_state_object_def get_prop_def set_prop_def Let_def
        split: option.split)
  with assms show ?thesis
    by (simp add: handle_set_group_state_def truthy_str_def Let_def local_state_bridge_def
        act_apply catch_as_def type_error_def)
qed

text \<open>
  C1. The claim says that \<open>set_group_state\<close> sends the object it has built to the bridge
  and answers with success. The code builds the object, here \<open>{bri: 127}\<close> for brightness
  50, and then looks for the bridge session in that same object (line 333 reads \<open>state\<close>,
  which line 325 has redeclared inside the \<open>try\<close> block). The read throws, the \<open>catch\<close>
  answers with an error response carrying the message of the \<open>TypeError\<close>, and the state
  is unchanged: no call has reached the bridge. Every other case reads the session from the
  module-level \<open>state\<close>.
\<close>

theorem set_group_state_never_reaches_the_bridge:
  "group_state_object ((command0 ''set_group_state'')\<lparr>group_f := Some ''1'', brightness := Some 50\<rparr>) =
     [(''bri'', JNum 127)] \<and>
   handleCommand ((command0 ''set_group_state'')\<lparr>group_f := Some ''1'', brightness := Some 50\<rparr>) sys0 =
     (Inr (Error ''Cannot read properties of undefined (reading groups)''), sys0)"
proof -
  let ?c = "(command0 ''set_group_state'')\<lparr>group_f := Some ''1'', brightness := Some 50\<rparr>"
  have "js_round (of_int 50 / 100 * 254) = 127"
    unfolding js_round_brightness by simp
  then have 1: "group_state_object ?c = [(''bri'', JNum 127)]"
    by (simp add: group_state_object_def command0_def set_prop_def truthy_num_def truthy_str_def)
  have hc: "handleCommand ?c = handle_set_group_state ?c"
    by (simp add: handleCommand_def command0_def)
  have g: "group_f ?c = Some ''1''" by (simp add: command0_def)
  have 2: "handleCommand ?c sys0 =
     (Inr (Error ''Cannot read properties of undefined (reading groups)''), sys0)"
    unfolding hc by (rule set_group_state_throws [OF g]) simp
  from 1 2 show ?thesis by (rule conjI)
qed

section \<open>Queries and the stored light list\<close>

text \<open>
  C2 as stated fails for \<open>get_lights\<close>: here the bridge would report the light as on,
  the response carries the list stored at startup, where it is off, and the state after is
  the state before, so no call was made.
\<close>

theorem get_lights_reads_the_stored_list_counterexample:
  "fst (lights_getAll bridge0 (world sys0)) = Inr [BridgeLight ''1'' ''Desk'' ''{on:true}'' ''''] \<and>
   handleCommand (command0 ''get_lights'') sys0 =
     (Inr (LightsList [LightView ''1'' ''Desk'' ''{on:false}'']), sys0) \<and>
   bridge_calls (trace sys0) = []"
  by (simp add: handleCommand_def handle_get_lights_def state_lights_def act_apply command0_def
      sys0_def bridge0_def light_view_of_def)

text \<open>
  C2, amended. On a server with a bridge session, \<open>get_groups\<close> and \<open>get_scenes\<close> each
  make one \<open>getAll\<close> call at query time and answer with the projection of its result (or
  throw what it throws); afterwards the state differs from the state before only in the
  world behind the bridge and in the trace, so nothing of the result is kept. \<open>get_lights\<close>
  makes no call: it answers with the projection of the light list stored in the
  module-level state, and leaves the state as it was.
\<close>

theorem queries_fetch_groups_and_scenes_not_lights:
  assumes "bridge (hue \<sigma>) = Some B"
  shows "(type command = ''get_lights'' \<longrightarrow>
      handleCommand command \<sigma> = (Inr (LightsList (map light_view_of (lights (hue \<sigma>)))), \<sigma>)) \<and>
   (type command = ''get_groups'' \<longrightarrow>
      handleCommand command \<sigma> =
        (map_sum id (\<lambda>groups. GroupsList (map group_view_of groups)) (fst (groups_getAll B (world \<sigma>))),
         \<sigma>\<lparr>world := snd (groups_getAll B (world \<sigma>)),
           trace := trace \<sigma> @ [BridgeCall GroupsGetAll]\<rparr>)) \<and>
   (type command = ''get_scenes'' \<longrightarrow>
      handleCommand command \<sigma> =
        (map_sum id (\<lambda>scenes. ScenesList (map scene_view_of scenes)) (fst (scenes_getAll B (world \<sigma>))),
         \<sigma>\<lparr>world := snd (scenes_getAll B (world \<sigma>)),
           trace := trace \<sigma> @ [BridgeCall ScenesGetAll]\<rparr>))"
proof (intro conjI impI)
  assume "type command = ''get_lights''"
  then show "handleCommand command \<sigma> =
      (Inr (LightsList (map light_view_of (lights (hue \<sigma>)))), \<sigma>)"
    by (simp add: handleCommand_def handle_get_lights_def state_lights_def act_apply)
next
  assume t: "type command = ''get_groups''"
  obtain r w' where g: "groups_getAll B (world \<sigma>) = (r, w')"
    by (cases "groups_getAll B (world \<sigma>)")
  from t assms show "handleCommand command \<sigma> =
        (map_sum id (\<lambda>groups. GroupsList (map group_view_of groups)) (fst (groups_getAll B (world \<sigma>))),
         \<sigma>\<lparr>world := snd (groups_getAll B (world \<sigma>)),
           trace := trace \<sigma> @ [BridgeCall GroupsGetAll]\<rparr>)"
    by (cases r)
      (simp_all add: handleCommand_def handle_get_groups_def groups_getAll_call_def
        state_bridge_def invoke_def act_apply g)
next
  assume t: "type command = ''get_scenes''"
  obtain r w' where g: "scenes_getAll B (world \<sigma>) = (r, w')"
    by (cases "scenes_getAll B (world \<sigma>)")
  from t assms show "handleCommand command \<sigma> =
        (map_sum id (\<lambda>scenes. ScenesList (map scene_view_of scenes)) (fst (scenes_getAll B (world \<sigma>))),
         \<sigma>\<lparr>world := snd (scenes_getAll B (world \<sigma>)),
           trace := trace \<sigma> @ [BridgeCall ScenesGetAll]\<rparr>)"
    by (cases r)
      (simp_all add: handleCommand_def handle_get_scenes_def scenes_getAll_call_def
        state_bridge_def invoke_def act_apply g)
qed

theorem queries_fetch_groups_and_scenes_not_lights_witness:
  "bridge (hue sys0) = Some bridge0 \<and>
   handleCommand (command0 ''get_groups'') sys0 =
     (Inr (GroupsList [GroupView ''1'' ''Kitchen'' [''1''] ''{}'']),
      sys0\<lparr>trace := [BridgeCall GroupsGetAll]\<rparr>) \<and>
   handleCommand (command0 ''get_lights'') sys0 =
     (Inr (LightsList [LightView ''1'' ''Desk'' ''{on:false}'']), sys0)"
proof -
  have b: "bridge (hue sys0) = Some bridge0"
    by (simp add: sys0_def)
  have tg: "type (command0 ''get_groups'') = ''get_groups''"
    and tl: "type (command0 ''get_lights'') = ''get_lights''"
    by (simp_all add: command0_def)
  note inst_g = queries_fetch_groups_and_scenes_not_lights
    [OF b, of "command0 ''get_groups''", THEN conjunct2, THEN conjunct1, rule_format, OF tg]
  note inst_l = queries_fetch_groups_and_scenes_not_lights
    [OF b, of "command0 ''get_lights''", THEN conjunct1, rule_format, OF tl]
  have g: "groups_getAll bridge0 (world sys0) =
      (Inr [BridgeGroup ''1'' ''Kitchen'' [''1''] ''{}'' ''''], world sys0)"
    by (simp add: bridge0_def)
  have w: "trace sys0 = []"
    by (simp add: sys0_def)
  have 1: "handleCommand (command0 ''get_groups'') sys0 =
     (Inr (GroupsList [GroupView ''1'' ''Kitchen'' [''1''] ''{}'']),
      sys0\<lparr>trace := [BridgeCall GroupsGetAll]\<rparr>)"
    unfolding inst_g g by (simp add: w group_view_of_def)
  have l: "lights (hue sys0) = [BridgeLight ''1'' ''Desk'' ''{on:false}'' '''']"
    by (simp add: sys0_def)
  have 2: "handleCommand (command0 ''get_lights'') sys0 =
     (Inr (LightsList [LightView ''1'' ''Desk'' ''{on:false}'']), sys0)"
    unfolding inst_l l by (simp add: light_view_of_def)
  from b 1 2 show ?thesis by (intro conjI)
qed

section \<open>The startup snapshot\<close>

lemma initializeHueBridge_success:
  assumes "initializeHueBridge host username connect \<sigma>0 = (Inr (), \<sigma>1)"
  shows "\<exists>B w ls w'. connect (the host) (the username) (world \<sigma>0) = (Inr B, w) \<and>
     lights_getAll B w = (Inr ls, w') \<and>
     hue \<sigma>1 = (hue \<sigma>0)\<lparr>bridge := Some B, lights := ls\<rparr> \<and>
     trace \<sigma>1 = trace \<sigma>0 @ [BridgeCall LightsGetAll]"
proof -
  from assms have ok: "truthy_str host" "truthy_str username"
    by (auto simp: initializeHueBridge_def throw_apply split: if_splits)
  obtain r w where c: "connect (the host) (the username) (world \<sigma>0) = (r, w)"
    by (cases "connect (the host) (the username) (world \<sigma>0)")
  show ?thesis
  proof (cases r)
    case (Inl e)
    with assms ok c show ?thesis
      by (simp add: initializeHueBridge_def act_apply)
  next
    case (Inr B)
    obtain r' w' where g: "lights_getAll B w = (r', w')"
      by (cases "lights_getAll B w")
    show ?thesis
    proof (cases r')
      case (Inl e)
      with assms ok c Inr g show ?thesis
        by (simp add: initializeHueBridge_def act_apply lights_getAll_call_def
            state_bridge_def invoke_def)
    next
      case ls: (Inr ls)
      with assms ok c Inr g
      have "hue \<sigma>1 = (hue \<sigma>0)\<lparr>bridge := Some B, lights := ls\<rparr> \<and>
          trace \<sigma>1 = trace \<sigma>0 @ [BridgeCall LightsGetAll]"
        by (auto simp: initializeHueBridge_def act_apply lights_getAll_call_def
            state_bridge_def invoke_def)
      with c Inr g ls show ?thesis by blast
    qed
  qed
qed

lemma lights_fetches_other_call:
  "c \<noteq> LightsGetAll \<Longrightarrow> lights_fetches (tr @ [BridgeCall c]) = lights_fetches tr"
  by (simp add: lights_fetches_def bridge_calls_append)

lemma lights_fetches_wait: "lights_fetches (tr @ [Wait ms]) = lights_fetches tr"
  by (simp add: lights_fetches_def bridge_calls_append)

lemma handleCommand_no_lights_fetch:
  "lights_fetches (trace (snd (handleCommand command \<sigma>))) = lights_fetches (trace \<sigma>)"
proof -
  have "upholds same_lights_fetches (handleCommand command)"
    by (rule upholds_handleCommand)
      (simp_all add: reflp_def transp_def same_lights_fetches_def lights_fetches_other_call
        lights_fetches_wait)
  then show ?thesis
    unfolding upholds_def same_lights_fetches_def by blast
qed

lemma setLightState_no_lights_fetch:
  "lights_fetches (trace (snd (setLightState lid st \<sigma>))) = lights_fetches (trace \<sigma>)"
proof -
  have "upholds same_lights_fetches (setLightState lid st)"
    by (rule upholds_setLightState)
      (simp_all add: reflp_def transp_def same_lights_fetches_def lights_fetches_other_call)
  then show ?thesis
    unfolding upholds_def same_lights_fetches_def by blast
qed

lemma disco_tick_no_lights_fetch:
  "lights_fetches (trace (disco_tick interval \<sigma>)) = lights_fetches (trace \<sigma>)"
proof -
  let ?call = "setLightState (the (job_lightId (timers \<sigma> ! interval)))
        [(''on'', JBool True), (''bri'', JNum 254),
         (''rgb'', color_at (colorIndex (timers \<sigma> ! interval))), (''transitiontime'', JNum 0)] \<sigma>"
  obtain r \<sigma>' where s: "?call = (r, \<sigma>')"
    by (cases ?call)
  from setLightState_no_lights_fetch [of "the (job_lightId (timers \<sigma> ! interval))" _ \<sigma>] s
  have "lights_fetches (trace \<sigma>') = lights_fetches (trace \<sigma>)" by (metis snd_conv)
  with s show ?thesis
    by (cases r) (simp_all add: disco_tick_def Let_def)
qed

lemma step_no_lights_fetch: "lights_fetches (trace (step input \<sigma>)) = lights_fetches (trace \<sigma>)"
  by (cases input) (simp_all add: handleCommand_no_lights_fetch disco_tick_no_lights_fetch)

lemma run_no_lights_fetch: "lights_fetches (trace (run inputs \<sigma>)) = lights_fetches (trace \<sigma>)"
  unfolding run_def
  by (induction inputs arbitrary: \<sigma>) (simp_all add: step_no_lights_fetch)

text \<open>
  C3. After a successful \<open>initializeHueBridge\<close>, which makes one \<open>lights.getAll\<close> call on
  the session it has connected and stores the result, whatever commands are interpreted,
  timers fire, time passes or the world behind the bridge changes: the stored list is still
  that result, no further \<open>lights.getAll\<close> call has been made, and \<open>get_lights\<close> answers
  with exactly the elements of the list, each projected to identifier, name and state,
  without changing the state. Handlers are run one after another here; no statement of
  \<open>handleCommand\<close> or of the timer callback assigns to \<open>state.lights\<close>, so interleaving
  them changes nothing in this.
\<close>

theorem get_lights_returns_startup_snapshot:
  assumes "initializeHueBridge host username connect \<sigma>0 = (Inr (), \<sigma>1)"
    and "type command = ''get_lights''"
  shows "\<exists>B w ls. connect (the host) (the username) (world \<sigma>0) = (Inr B, w) \<and>
     fst (lights_getAll B w) = Inr ls \<and>
     (\<forall>inputs. lights (hue (run inputs \<sigma>1)) = ls \<and>
        lights_fetches (trace (run inputs \<sigma>1)) = lights_fetches (trace \<sigma>0) + 1 \<and>
        handleCommand command (run inputs \<sigma>1) =
          (Inr (LightsList (map (\<lambda>light. LightView (light_id light) (light_name light)
                                           (light_state light)) ls)),
           run inputs \<sigma>1))"
proof -
  from initializeHueBridge_success [OF assms(1)]
  obtain B w ls w' where c: "connect (the host) (the username) (world \<sigma>0) = (Inr B, w)"
    and g: "lights_getAll B w = (Inr ls, w')"
    and h: "hue \<sigma>1 = (hue \<sigma>0)\<lparr>bridge := Some B, lights := ls\<rparr>"
    and t: "trace \<sigma>1 = trace \<sigma>0 @ [BridgeCall LightsGetAll]"
    by blast
  from g have g': "fst (lights_getAll B w) = Inr ls" by simp
  from t have t': "lights_fetches (trace \<sigma>1) = lights_fetches (trace \<sigma>0) + 1"
    by (simp add: lights_fetches_def bridge_calls_append)
  have r: "\<forall>inputs. lights (hue (run inputs \<sigma>1)) = ls \<and>
        lights_fetches (trace (run inputs \<sigma>1)) = lights_fetches (trace \<sigma>0) + 1 \<and>
        handleCommand command (run inputs \<sigma>1) =
          (Inr (LightsList (map (\<lambda>light. LightView (light_id light) (light_name light)
                                           (light_state light)) ls)),
           run inputs \<sigma>1)"
  proof
    fix inputs
    from h have l: "lights (hue (run inputs \<sigma>1)) = ls"
      by (simp add: run_same_hue)
    from t' have f: "lights_fetches (trace (run inputs \<sigma>1)) = lights_fetches (trace \<sigma>0) + 1"
      by (simp add: run_no_lights_fetch)
    from assms(2) have "handleCommand command (run inputs \<sigma>1) =
        (Inr (LightsList (map light_view_of (lights (hue (run inputs \<sigma>1))))), run inputs \<sigma>1)"
      by (simp add: handleCommand_def handle_get_lights_def state_lights_def act_apply)
    with l f show "lights (hue (run inputs \<sigma>1)) = ls \<and>
        lights_fetches (trace (run inputs \<sigma>1)) = lights_fetches (trace \<sigma>0) + 1 \<and>
        handleCommand command (run inputs \<sigma>1) =
          (Inr (LightsList (map (\<lambda>light. LightView (light_id light) (light_name light)
                                           (light_state light)) ls)),
           run inputs \<sigma>1)"
      by (simp add: light_view_of_def [abs_def])
  qed
  from c g' r show ?thesis by blast
qed

theorem get_lights_returns_startup_snapshot_witness:
  "initializeHueBridge (Some ''192.168.1.2'') (Some ''user'') connect0 sys_boot =
     (Inr (), sys_started) \<and>
   fst (handleCommand (command0 ''get_lights'')
     (run [Command ((command0 ''set_color'')\<lparr>lightId := Some ''1'', color := Some (255, 0, 0)\<rparr>),
           External (\<lambda>w. [BridgeLight ''1'' ''Desk'' ''{on:true}'' ''''])] sys_started)) =
     Inr (LightsList [LightView ''1'' ''Desk'' ''{on:false}''])"
proof -
  let ?inputs = "[Command ((command0 ''set_color'')\<lparr>lightId := Some ''1'', color := Some (255, 0, 0)\<rparr>),
           External (\<lambda>w. [BridgeLight ''1'' ''Desk'' ''{on:true}'' ''''])]"
  have i: "initializeHueBridge (Some ''192.168.1.2'') (Some ''user'') connect0 sys_boot =
     (Inr (), sys_started)"
    by (simp add: initializeHueBridge_def act_apply truthy_str_def connect0_def sys_boot_def
        lights_getAll_call_def state_bridge_def invoke_def bridge0_def sys_started_def)
  have t: "type (command0 ''get_lights'') = ''get_lights''"
    by (simp add: command0_def)
  from get_lights_returns_startup_snapshot [OF i t]
  obtain ls where r: "\<forall>inputs. lights (hue (run inputs sys_started)) = ls \<and>
        lights_fetches (trace (run inputs sys_started)) = lights_fetches (trace sys_boot) + 1 \<and>
        handleCommand (command0 ''get_lights'') (run inputs sys_started) =
          (Inr (LightsList (map (\<lambda>light. LightView (light_id light) (light_name light)
                                           (light_state light)) ls)),
           run inputs sys_started)"
    by (elim exE conjE)
  from r [rule_format, of "[]", THEN conjunct1]
  have ls: "ls = [BridgeLight ''1'' ''Desk'' ''{on:false}'' '''']"
    by (simp add: run_def sys_started_def)
  from r [rule_format, of ?inputs, THEN conjunct2, THEN conjunct2]
  have "fst (handleCommand (command0 ''get_lights'') (run ?inputs sys_started)) =
     Inr (LightsList [LightView ''1'' ''Desk'' ''{on:false}''])"
    unfolding ls by simp
  with i show ?thesis by (rule conjI)
qed

end
